theory Spec2Isabelle
  imports Main "HOL-Library.Word"
begin

unbundle bit_operations_syntax

section \<open>The contract DAO_Treasury_Hedge_FHE\<close>

text \<open>
  A shallow embedding of the Solidity contract \<^verbatim>\<open>DAO_Treasury_Hedge_FHE\<close>.
  Storage is a record, every external function is a function from the storage to
  either an error (the transaction reverts) or the new storage, and modifiers are
  functions that wrap a function body.
\<close>

subsection \<open>Types\<close>

type_synonym uint256 = "256 word"
type_synonym address = "160 word"
type_synonym bytes32 = "256 word"
type_synonym bytes = "8 word list"

text \<open>An \<^verbatim>\<open>euint32\<close> is a user-defined value type over \<^verbatim>\<open>bytes32\<close>: the ciphertext handle.\<close>

type_synonym euint32 = bytes32

text \<open>
  The custom errors of the contract, and the two ways the compiled code reverts by
  itself: \<open>Panic\<close> for checked arithmetic that overflows, \<open>SliceOutOfBounds\<close> for a
  byte range that leaves its array.
\<close>

datatype error =
    NotOwner
  | NotProvider
  | Paused
  | CooldownActive
  | BatchClosed
  | InvalidBatch
  | ReplayAttempt
  | StateMismatch
  | InvalidDecryptionProof
  | NotInitialized
  | Panic
  | SliceOutOfBounds

datatype event =
    OwnershipTransferred address address
  | ProviderAdded address
  | ProviderRemoved address
  | PauseToggled bool
  | CooldownSecondsChanged uint256 uint256
  | BatchOpened uint256
  | BatchClosedEvent uint256
  | AssetSubmitted uint256 address address euint32
  | HedgeSubmitted uint256 address address euint32
  | DecryptionRequested uint256 uint256 bytes32
  | DecryptionCompleted uint256 uint256 "uint256 list" "uint256 list"

record DecryptionContext =
  batchId :: uint256
  stateHash :: bytes32
  processed :: bool

text \<open>
  The storage of the contract. A Solidity mapping is total: a key never written reads
  as the zero value. \<open>events\<close> is the log of the events emitted so far.

  Modelled from the spec: \<open>counterRequest\<close> is the state of the decryption oracle
  transport behind \<^verbatim>\<open>FHE.requestDecryption\<close>, whose code is not part of the
  repository. The spec says that a request "receives a unique requestId"; the
  transport is modelled as a counter that hands out its value and is then incremented.
\<close>

record state =
  owner :: address
  isProvider :: "address \<Rightarrow> bool"
  paused :: bool
  cooldownSeconds :: uint256
  lastSubmissionTime :: "address \<Rightarrow> uint256"
  lastDecryptionRequestTime :: "address \<Rightarrow> uint256"
  currentBatchId :: uint256
  isBatchClosed :: "uint256 \<Rightarrow> bool"
  decryptionContexts :: "uint256 \<Rightarrow> DecryptionContext"
  encryptedAssetAmounts :: "uint256 \<Rightarrow> address \<Rightarrow> euint32"
  encryptedHedgeAmounts :: "uint256 \<Rightarrow> address \<Rightarrow> euint32"
  counterRequest :: uint256
  events :: "event list"

text \<open>What a transaction sees of its environment: \<^verbatim>\<open>msg.sender\<close> and \<^verbatim>\<open>block.timestamp\<close>.\<close>

record env =
  msg_sender :: address
  block_timestamp :: uint256

text \<open>
  What is fixed when the contract is deployed and is not code of the repository:
  the contract's own address \<^verbatim>\<open>address(this)\<close>, the hash function \<^verbatim>\<open>keccak256\<close>, and
  the operations \<^verbatim>\<open>FHE.isInitialized\<close> and \<^verbatim>\<open>FHE.checkSignatures\<close> of the FHE library.
  They are parameters of the model.
\<close>

record platform =
  address_this :: address
  keccak256 :: "bytes \<Rightarrow> bytes32"
  FHE_isInitialized :: "euint32 \<Rightarrow> bool"
  FHE_checkSignatures :: "uint256 \<Rightarrow> bytes \<Rightarrow> bytes \<Rightarrow> bool"

type_synonym body = "state \<Rightarrow> error + state"

subsection \<open>Arithmetic, encoding and events\<close>

text \<open>Solidity 0.8 checks \<open>+\<close> and \<open>++\<close> on \<^verbatim>\<open>uint256\<close>: an overflow reverts.\<close>

definition checked_add :: "uint256 \<Rightarrow> uint256 \<Rightarrow> error + uint256" where
  "checked_add a b = (if unat a + unat b < 2 ^ 256 then Inr (a + b) else Inl Panic)"

definition emit :: "event \<Rightarrow> state \<Rightarrow> state" where
  "emit ev s = s\<lparr>events := events s @ [ev]\<rparr>"

text \<open>A 32-byte word of the ABI encoding, big-endian.\<close>

definition uint256_to_bytes :: "uint256 \<Rightarrow> bytes" where
  "uint256_to_bytes w = map (\<lambda>i. ucast (drop_bit (8 * (31 - i)) w)) [0..<32]"

text \<open>\<^verbatim>\<open>abi.decode(b, (uint256))\<close> on a range of 32 bytes.\<close>

definition abi_decode_uint256 :: "bytes \<Rightarrow> uint256" where
  "abi_decode_uint256 bs = foldl (\<lambda>acc b. acc * 256 + ucast b) 0 bs"

text \<open>
  \<^verbatim>\<open>abi.encode(cts, address(this))\<close> for \<^verbatim>\<open>bytes32[] cts\<close>: the head holds the offset of
  the array (two words, \<open>0x40\<close>) and the address, the tail the length of the array and
  its elements.
\<close>

definition abi_encode_cts :: "bytes32 list \<Rightarrow> address \<Rightarrow> bytes" where
  "abi_encode_cts cts a =
     concat (map uint256_to_bytes ([0x40, ucast a, of_nat (length cts)] @ cts))"

text \<open>
  The byte range \<^verbatim>\<open>bs[a:b]\<close>, with the meaning Solidity gives to the range of a byte
  array: the bytes from \<open>a\<close> up to \<open>b\<close>, and a revert when the range leaves the array.
\<close>

definition slice :: "bytes \<Rightarrow> nat \<Rightarrow> nat \<Rightarrow> error + bytes" where
  "slice bs a b =
     (if a \<le> b \<and> b \<le> length bs then Inr (take (b - a) (drop a bs)) else Inl SliceOutOfBounds)"

text \<open>\<^verbatim>\<open>FHE.toBytes32\<close> unwraps the handle.\<close>

definition FHE_toBytes32 :: "euint32 \<Rightarrow> bytes32" where
  "FHE_toBytes32 h = h"

text \<open>
  Modelled from the spec: \<^verbatim>\<open>FHE.requestDecryption\<close> hands the ordered handles to the
  oracle and returns a unique request id: the value of the transport's counter, which
  is then incremented with the checked \<open>++\<close>.
\<close>

definition FHE_requestDecryption :: "bytes32 list \<Rightarrow> state \<Rightarrow> error + (uint256 \<times> state)" where
  "FHE_requestDecryption cts s =
     (case checked_add (counterRequest s) 1 of
        Inl err \<Rightarrow> Inl err
      | Inr n \<Rightarrow> Inr (counterRequest s, s\<lparr>counterRequest := n\<rparr>))"

subsection \<open>Modifiers\<close>

definition onlyOwner :: "env \<Rightarrow> body \<Rightarrow> body" where
  "onlyOwner e f s = (if msg_sender e \<noteq> owner s then Inl NotOwner else f s)"

definition onlyProvider :: "env \<Rightarrow> body \<Rightarrow> body" where
  "onlyProvider e f s =
     (if \<not> isProvider s (msg_sender e) then Inl NotProvider
      else (case f s of
              Inl err \<Rightarrow> Inl err
            | Inr s' \<Rightarrow>
                Inr (s'\<lparr>lastSubmissionTime :=
                          (lastSubmissionTime s')(msg_sender e := block_timestamp e)\<rparr>)))"

definition whenNotPaused :: "body \<Rightarrow> body" where
  "whenNotPaused f s = (if paused s then Inl Paused else f s)"

definition submissionCooldown :: "address \<Rightarrow> env \<Rightarrow> body \<Rightarrow> body" where
  "submissionCooldown submitter e f s =
     (case checked_add (lastSubmissionTime s submitter) (cooldownSeconds s) of
        Inl err \<Rightarrow> Inl err
      | Inr limit \<Rightarrow> if block_timestamp e < limit then Inl CooldownActive else f s)"

definition decryptionCooldown :: "address \<Rightarrow> env \<Rightarrow> body \<Rightarrow> body" where
  "decryptionCooldown requester e f s =
     (case checked_add (lastDecryptionRequestTime s requester) (cooldownSeconds s) of
        Inl err \<Rightarrow> Inl err
      | Inr limit \<Rightarrow>
          if block_timestamp e < limit then Inl CooldownActive
          else (case f s of
                  Inl err \<Rightarrow> Inl err
                | Inr s' \<Rightarrow>
                    Inr (s'\<lparr>lastDecryptionRequestTime :=
                              (lastDecryptionRequestTime s')(requester := block_timestamp e)\<rparr>)))"

subsection \<open>Constructor and administration\<close>

definition zero_context :: DecryptionContext where
  "zero_context = \<lparr>batchId = 0, stateHash = 0, processed = False\<rparr>"

definition zero_storage :: state where
  "zero_storage =
     \<lparr>owner = 0, isProvider = (\<lambda>_. False), paused = False, cooldownSeconds = 0,
      lastSubmissionTime = (\<lambda>_. 0), lastDecryptionRequestTime = (\<lambda>_. 0),
      currentBatchId = 0, isBatchClosed = (\<lambda>_. False),
      decryptionContexts = (\<lambda>_. zero_context),
      encryptedAssetAmounts = (\<lambda>_ _. 0), encryptedHedgeAmounts = (\<lambda>_ _. 0),
      counterRequest = 0, events = []\<rparr>"

definition constructor :: "env \<Rightarrow> state" where
  "constructor e =
     (let s1 = zero_storage\<lparr>owner := msg_sender e\<rparr>;
          s2 = emit (OwnershipTransferred 0 (msg_sender e)) s1;
          s3 = s2\<lparr>currentBatchId := 1\<rparr>;
          s4 = emit (BatchOpened (currentBatchId s3)) s3
      in s4\<lparr>cooldownSeconds := 60\<rparr>)"

definition transferOwnership :: "env \<Rightarrow> address \<Rightarrow> body" where
  "transferOwnership e newOwner =
     onlyOwner e (\<lambda>s.
       let previousOwner = owner s;
           s1 = s\<lparr>owner := newOwner\<rparr>
       in Inr (emit (OwnershipTransferred previousOwner newOwner) s1))"

definition addProvider :: "env \<Rightarrow> address \<Rightarrow> body" where
  "addProvider e provider =
     onlyOwner e (\<lambda>s.
       Inr (emit (ProviderAdded provider) (s\<lparr>isProvider := (isProvider s)(provider := True)\<rparr>)))"

definition removeProvider :: "env \<Rightarrow> address \<Rightarrow> body" where
  "removeProvider e provider =
     onlyOwner e (\<lambda>s.
       Inr (emit (ProviderRemoved provider) (s\<lparr>isProvider := (isProvider s)(provider := False)\<rparr>)))"

definition setPaused :: "env \<Rightarrow> bool \<Rightarrow> body" where
  "setPaused e p = onlyOwner e (\<lambda>s. Inr (emit (PauseToggled p) (s\<lparr>paused := p\<rparr>)))"

definition setCooldownSeconds :: "env \<Rightarrow> uint256 \<Rightarrow> body" where
  "setCooldownSeconds e c =
     onlyOwner e (\<lambda>s.
       let oldCooldown = cooldownSeconds s;
           s1 = s\<lparr>cooldownSeconds := c\<rparr>
       in Inr (emit (CooldownSecondsChanged oldCooldown c) s1))"

subsection \<open>Batches and submissions\<close>

definition openNewBatch :: "env \<Rightarrow> body" where
  "openNewBatch e =
     onlyOwner e (whenNotPaused (\<lambda>s.
       case checked_add (currentBatchId s) 1 of
         Inl err \<Rightarrow> Inl err
       | Inr n \<Rightarrow>
           let s1 = s\<lparr>currentBatchId := n\<rparr>
           in Inr (emit (BatchOpened (currentBatchId s1)) s1)))"

definition closeCurrentBatch :: "env \<Rightarrow> body" where
  "closeCurrentBatch e =
     onlyOwner e (whenNotPaused (\<lambda>s.
       let s1 = s\<lparr>isBatchClosed := (isBatchClosed s)(currentBatchId s := True)\<rparr>
       in Inr (emit (BatchClosedEvent (currentBatchId s1)) s1)))"

definition initIfNeeded :: "platform \<Rightarrow> euint32 \<Rightarrow> body" where
  "initIfNeeded x v s = (if \<not> FHE_isInitialized x v then Inl NotInitialized else Inr s)"

definition submitEncryptedAssetAmount ::
  "platform \<Rightarrow> env \<Rightarrow> uint256 \<Rightarrow> address \<Rightarrow> euint32 \<Rightarrow> body" where
  "submitEncryptedAssetAmount x e bid asset amount =
     onlyProvider e (whenNotPaused (submissionCooldown (msg_sender e) e (\<lambda>s.
       if bid \<noteq> currentBatchId s then Inl InvalidBatch
       else if isBatchClosed s bid then Inl BatchClosed
       else case initIfNeeded x amount s of
              Inl err \<Rightarrow> Inl err
            | Inr s1 \<Rightarrow>
                let s2 = s1\<lparr>encryptedAssetAmounts :=
                              (encryptedAssetAmounts s1)
                                (bid := (encryptedAssetAmounts s1 bid)(asset := amount))\<rparr>
                in Inr (emit (AssetSubmitted bid (msg_sender e) asset amount) s2))))"

definition submitEncryptedHedgeAmount ::
  "platform \<Rightarrow> env \<Rightarrow> uint256 \<Rightarrow> address \<Rightarrow> euint32 \<Rightarrow> body" where
  "submitEncryptedHedgeAmount x e bid asset amount =
     onlyProvider e (whenNotPaused (submissionCooldown (msg_sender e) e (\<lambda>s.
       if bid \<noteq> currentBatchId s then Inl InvalidBatch
       else if isBatchClosed s bid then Inl BatchClosed
       else case initIfNeeded x amount s of
              Inl err \<Rightarrow> Inl err
            | Inr s1 \<Rightarrow>
                let s2 = s1\<lparr>encryptedHedgeAmounts :=
                              (encryptedHedgeAmounts s1)
                                (bid := (encryptedHedgeAmounts s1 bid)(asset := amount))\<rparr>
                in Inr (emit (HedgeSubmitted bid (msg_sender e) asset amount) s2))))"

subsection \<open>Decryption request and callback\<close>

text \<open>The fixed list of assets that both functions build in memory.\<close>

definition assets :: "address list" where
  "assets = [0x1111111111111111111111111111111111111111,
             0x2222222222222222222222222222222222222222]"

text \<open>
  The loop that fills \<open>cts\<close>: for each asset, the amount handle at \<open>ctsIdx\<close> and the
  hedge handle at \<open>ctsIdx + 1\<close>. The array has two slots per asset, so no write is
  out of range.
\<close>

fun cts_loop :: "state \<Rightarrow> uint256 \<Rightarrow> address list \<Rightarrow> nat \<Rightarrow> bytes32 list \<Rightarrow> bytes32 list" where
  "cts_loop s bid [] ctsIdx cts = cts"
| "cts_loop s bid (a # rest) ctsIdx cts =
     cts_loop s bid rest (ctsIdx + 2)
       (cts[ctsIdx := FHE_toBytes32 (encryptedAssetAmounts s bid a),
            ctsIdx + 1 := FHE_toBytes32 (encryptedHedgeAmounts s bid a)])"

definition build_cts :: "state \<Rightarrow> uint256 \<Rightarrow> bytes32 list" where
  "build_cts s bid = cts_loop s bid assets 0 (replicate (length assets * 2) 0)"

definition hashCiphertexts :: "platform \<Rightarrow> bytes32 list \<Rightarrow> bytes32" where
  "hashCiphertexts x cts = keccak256 x (abi_encode_cts cts (address_this x))"

definition requestBatchDecryption :: "platform \<Rightarrow> env \<Rightarrow> uint256 \<Rightarrow> body" where
  "requestBatchDecryption x e bid =
     onlyOwner e (whenNotPaused (decryptionCooldown (msg_sender e) e (\<lambda>s.
       if \<not> isBatchClosed s bid then Inl InvalidBatch
       else
         let cts = build_cts s bid;
             h = hashCiphertexts x cts
         in case FHE_requestDecryption cts s of
              Inl err \<Rightarrow> Inl err
            | Inr (requestId, s1) \<Rightarrow>
                let s2 = s1\<lparr>decryptionContexts :=
                              (decryptionContexts s1)
                                (requestId := \<lparr>batchId = bid, stateHash = h, processed = False\<rparr>)\<rparr>
                in Inr (emit (DecryptionRequested requestId bid h) s2))))"

text \<open>
  The loop that decodes the cleartexts: \<open>n\<close> iterations are left, \<open>i\<close> is the index of
  the asset and \<open>cleartextIdx\<close> the offset of the next word.
\<close>

fun decode_loop ::
  "bytes \<Rightarrow> nat \<Rightarrow> nat \<Rightarrow> nat \<Rightarrow> uint256 list \<Rightarrow> uint256 list \<Rightarrow> error + (uint256 list \<times> uint256 list)" where
  "decode_loop cleartexts 0 i cleartextIdx assetAmounts hedgeAmounts =
     Inr (assetAmounts, hedgeAmounts)"
| "decode_loop cleartexts (Suc n) i cleartextIdx assetAmounts hedgeAmounts =
     (case slice cleartexts cleartextIdx (cleartextIdx + 32) of
        Inl err \<Rightarrow> Inl err
      | Inr b1 \<Rightarrow>
          (case slice cleartexts (cleartextIdx + 32) (cleartextIdx + 32 + 32) of
             Inl err \<Rightarrow> Inl err
           | Inr b2 \<Rightarrow>
               decode_loop cleartexts n (i + 1) (cleartextIdx + 32 + 32)
                 (assetAmounts[i := abi_decode_uint256 b1])
                 (hedgeAmounts[i := abi_decode_uint256 b2])))"

definition myCallback :: "platform \<Rightarrow> env \<Rightarrow> uint256 \<Rightarrow> bytes \<Rightarrow> bytes \<Rightarrow> body" where
  "myCallback x e requestId cleartexts prf s =
     (let context = decryptionContexts s requestId
      in if processed context then Inl ReplayAttempt
         else
           let cts = build_cts s (batchId context);
               currentHash = hashCiphertexts x cts
           in if currentHash \<noteq> stateHash context then Inl StateMismatch
              else if \<not> FHE_checkSignatures x requestId cleartexts prf
                then Inl InvalidDecryptionProof
              else
                let numAssets = length assets
                in case decode_loop cleartexts numAssets 0 0
                          (replicate numAssets 0) (replicate numAssets 0) of
                     Inl err \<Rightarrow> Inl err
                   | Inr (assetAmounts, hedgeAmounts) \<Rightarrow>
                       let s1 = s\<lparr>decryptionContexts :=
                                    (decryptionContexts s)
                                      (requestId :=
                                         (decryptionContexts s requestId)\<lparr>processed := True\<rparr>)\<rparr>
                       in Inr (emit (DecryptionCompleted requestId (batchId context)
                                       assetAmounts hedgeAmounts) s1))"

subsection \<open>Transactions\<close>

datatype call =
    TransferOwnership address
  | AddProvider address
  | RemoveProvider address
  | SetPaused bool
  | SetCooldownSeconds uint256
  | OpenNewBatch
  | CloseCurrentBatch
  | SubmitEncryptedAssetAmount uint256 address euint32
  | SubmitEncryptedHedgeAmount uint256 address euint32
  | RequestBatchDecryption uint256
  | MyCallback uint256 bytes bytes

fun dispatch :: "platform \<Rightarrow> env \<Rightarrow> call \<Rightarrow> body" where
  "dispatch x e (TransferOwnership newOwner) = transferOwnership e newOwner"
| "dispatch x e (AddProvider provider) = addProvider e provider"
| "dispatch x e (RemoveProvider provider) = removeProvider e provider"
| "dispatch x e (SetPaused p) = setPaused e p"
| "dispatch x e (SetCooldownSeconds c) = setCooldownSeconds e c"
| "dispatch x e OpenNewBatch = openNewBatch e"
| "dispatch x e CloseCurrentBatch = closeCurrentBatch e"
| "dispatch x e (SubmitEncryptedAssetAmount bid asset amount) =
     submitEncryptedAssetAmount x e bid asset amount"
| "dispatch x e (SubmitEncryptedHedgeAmount bid asset amount) =
     submitEncryptedHedgeAmount x e bid asset amount"
| "dispatch x e (RequestBatchDecryption bid) = requestBatchDecryption x e bid"
| "dispatch x e (MyCallback requestId cleartexts prf) = myCallback x e requestId cleartexts prf"

text \<open>
  A transaction either commits the storage its function returns, or reverts: then the
  storage (and the log) is what it was before the call, and the error is reported.
\<close>

definition transact :: "platform \<Rightarrow> env \<Rightarrow> call \<Rightarrow> state \<Rightarrow> error option \<times> state" where
  "transact x e c s = (case dispatch x e c s of Inl err \<Rightarrow> (Some err, s) | Inr s' \<Rightarrow> (None, s'))"

text \<open>A sequence of transactions, each with its own sender and time.\<close>

fun run :: "platform \<Rightarrow> (env \<times> call) list \<Rightarrow> state \<Rightarrow> state" where
  "run x [] s = s"
| "run x ((e, c) # tr) s = run x tr (snd (transact x e c s))"

text \<open>The states the contract reaches from its deployment.\<close>

inductive reachable :: "platform \<Rightarrow> state \<Rightarrow> bool" for x :: platform where
  reachable_constructor: "reachable x (constructor e)"
| reachable_transact: "reachable x s \<Longrightarrow> reachable x (snd (transact x e c s))"

subsection \<open>Predicates on states, calls and traces\<close>

text \<open>
  The batch ids issued so far are \<open>1\<close> up to \<open>currentBatchId\<close>. An issued batch has status
  Closed when \<open>isBatchClosed\<close> holds for it and status Open otherwise.
\<close>

definition isOpen :: "state \<Rightarrow> uint256 \<Rightarrow> bool" where
  "isOpen s b \<longleftrightarrow> 1 \<le> b \<and> b \<le> currentBatchId s \<and> \<not> isBatchClosed s b"

definition at_most_one_open :: "state \<Rightarrow> bool" where
  "at_most_one_open s \<longleftrightarrow> (\<forall>b. isOpen s b \<longrightarrow> b = currentBatchId s)"

text \<open>A trace in which every \<open>openNewBatch\<close> that succeeds finds the current batch Closed.\<close>

fun closes_before_opening :: "platform \<Rightarrow> (env \<times> call) list \<Rightarrow> state \<Rightarrow> bool" where
  "closes_before_opening x [] s = True"
| "closes_before_opening x ((e, c) # tr) s =
     ((c = OpenNewBatch \<and> fst (transact x e c s) = None \<longrightarrow> isBatchClosed s (currentBatchId s)) \<and>
      closes_before_opening x tr (snd (transact x e c s)))"

text \<open>The functions that carry the modifier \<open>onlyOwner\<close>.\<close>

fun owner_only :: "call \<Rightarrow> bool" where
  "owner_only (TransferOwnership _) = True"
| "owner_only (AddProvider _) = True"
| "owner_only (RemoveProvider _) = True"
| "owner_only (SetPaused _) = True"
| "owner_only (SetCooldownSeconds _) = True"
| "owner_only OpenNewBatch = True"
| "owner_only CloseCurrentBatch = True"
| "owner_only (RequestBatchDecryption _) = True"
| "owner_only _ = False"

text \<open>The functions that carry the modifier \<open>whenNotPaused\<close>, and the role each of them asks for.\<close>

fun pause_gated :: "call \<Rightarrow> bool" where
  "pause_gated OpenNewBatch = True"
| "pause_gated CloseCurrentBatch = True"
| "pause_gated (SubmitEncryptedAssetAmount _ _ _) = True"
| "pause_gated (SubmitEncryptedHedgeAmount _ _ _) = True"
| "pause_gated (RequestBatchDecryption _) = True"
| "pause_gated _ = False"

fun has_role :: "state \<Rightarrow> env \<Rightarrow> call \<Rightarrow> bool" where
  "has_role s e (SubmitEncryptedAssetAmount _ _ _) = isProvider s (msg_sender e)"
| "has_role s e (SubmitEncryptedHedgeAmount _ _ _) = isProvider s (msg_sender e)"
| "has_role s e (MyCallback _ _ _) = True"
| "has_role s e _ = (msg_sender e = owner s)"

text \<open>The administrative functions: \<open>onlyOwner\<close> and nothing else.\<close>

fun administrative :: "call \<Rightarrow> bool" where
  "administrative (TransferOwnership _) = True"
| "administrative (AddProvider _) = True"
| "administrative (RemoveProvider _) = True"
| "administrative (SetPaused _) = True"
| "administrative (SetCooldownSeconds _) = True"
| "administrative _ = False"

text \<open>The two submission functions.\<close>

fun is_submit :: "call \<Rightarrow> bool" where
  "is_submit (SubmitEncryptedAssetAmount _ _ _) = True"
| "is_submit (SubmitEncryptedHedgeAmount _ _ _) = True"
| "is_submit _ = False"

text \<open>The slot a submission writes, and the handle it brings.\<close>

fun stored :: "state \<Rightarrow> call \<Rightarrow> euint32" where
  "stored s (SubmitEncryptedAssetAmount bid asset _) = encryptedAssetAmounts s bid asset"
| "stored s (SubmitEncryptedHedgeAmount bid asset _) = encryptedHedgeAmounts s bid asset"
| "stored s _ = 0"

fun submitted_handle :: "call \<Rightarrow> euint32" where
  "submitted_handle (SubmitEncryptedAssetAmount _ _ amount) = amount"
| "submitted_handle (SubmitEncryptedHedgeAmount _ _ amount) = amount"
| "submitted_handle _ = 0"

text \<open>
  What holds of every state the contract reaches, as long as the hash of the snapshot
  of four zero handles is not zero: batch \<open>0\<close> is never current and holds no
  submission, and a request id that the oracle has not handed out yet has the zero
  context.
\<close>

definition fresh_inv :: "state \<Rightarrow> bool" where
  "fresh_inv s \<longleftrightarrow>
     currentBatchId s \<noteq> 0 \<and> build_cts s 0 = [0, 0, 0, 0] \<and>
     (\<forall>r. counterRequest s \<le> r \<longrightarrow> decryptionContexts s r = zero_context)"

text \<open>
  The storage \<open>s\<close> with other submissions: the two mappings of handles replaced, all
  else kept. Two storages agree on a batch when the handles of the listed assets are
  the same in both.
\<close>

definition with_submissions ::
  "state \<Rightarrow> (uint256 \<Rightarrow> address \<Rightarrow> euint32) \<Rightarrow> (uint256 \<Rightarrow> address \<Rightarrow> euint32) \<Rightarrow> state" where
  "with_submissions s am hm = s\<lparr>encryptedAssetAmounts := am, encryptedHedgeAmounts := hm\<rparr>"

definition agree_on_assets ::
  "state \<Rightarrow> (uint256 \<Rightarrow> address \<Rightarrow> euint32) \<Rightarrow> (uint256 \<Rightarrow> address \<Rightarrow> euint32) \<Rightarrow> uint256 \<Rightarrow> bool" where
  "agree_on_assets s am hm bid \<longleftrightarrow>
     list_all (\<lambda>a. am bid a = encryptedAssetAmounts s bid a \<and>
                    hm bid a = encryptedHedgeAmounts s bid a) assets"

subsection \<open>Sample inputs\<close>

text \<open>
  A platform to run the contract on: a polynomial hash with odd values in the place of
  \<open>keccak256\<close>, handles that are initialized when they are not zero, and a proof check
  that accepts the one-byte proof \<open>[1]\<close>.
\<close>

definition sample_keccak :: "bytes \<Rightarrow> bytes32" where
  "sample_keccak bs = 2 * foldl (\<lambda>h b. h * 257 + ucast b) 0 bs + 1"

definition sample_platform :: platform where
  "sample_platform =
     \<lparr>address_this = 0xC0FFEE, keccak256 = sample_keccak,
      FHE_isInitialized = (\<lambda>h. h \<noteq> 0),
      FHE_checkSignatures = (\<lambda>requestId cleartexts prf. prf = [1])\<rparr>"

definition at :: "address \<Rightarrow> uint256 \<Rightarrow> env" where
  "at a t = \<lparr>msg_sender = a, block_timestamp = t\<rparr>"

text \<open>The accounts of the samples: the deployer, a provider and the oracle's relayer.\<close>

definition alice :: address where "alice = 0xA11CE"
definition bob :: address where "bob = 0xB0B"
definition relayer :: address where "relayer = 0x0AC1E"

text \<open>The ABI encoding of the four cleartexts \<open>100, 0, 50, 20\<close>: 128 bytes.\<close>

definition sample_cleartexts :: bytes where
  "sample_cleartexts =
     replicate 31 0 @ [100] @ replicate 32 0 @ replicate 31 0 @ [50] @ replicate 31 0 @ [20]"

definition sample_deployed :: state where
  "sample_deployed = constructor (at alice 0)"

definition sample_closed :: state where
  "sample_closed = run sample_platform [(at alice 100, CloseCurrentBatch)] sample_deployed"

definition sample_requested :: state where
  "sample_requested =
     run sample_platform [(at alice 200, RequestBatchDecryption 1)] sample_closed"

definition sample_finalized :: state where
  "sample_finalized =
     run sample_platform [(at relayer 300, MyCallback 0 sample_cleartexts [1])] sample_requested"

definition sample_two_open :: state where
  "sample_two_open = run sample_platform [(at alice 100, OpenNewBatch)] sample_deployed"

definition sample_paused :: state where
  "sample_paused = run sample_platform [(at alice 250, SetPaused True)] sample_requested"

text \<open>
  A second run, with submissions: the provider \<open>bob\<close> submits the amount of the first
  asset, then the amount and the hedge of the second, the owner closes the batch and
  requests its decryption, and the oracle answers.
\<close>

definition sample_submitted :: state where
  "sample_submitted =
     run sample_platform
       [(at alice 10, AddProvider bob),
        (at bob 100, SubmitEncryptedAssetAmount 1 0x1111111111111111111111111111111111111111 0xAA),
        (at bob 200, SubmitEncryptedAssetAmount 1 0x2222222222222222222222222222222222222222 0xBB),
        (at bob 300, SubmitEncryptedHedgeAmount 1 0x2222222222222222222222222222222222222222 0xCC),
        (at alice 400, CloseCurrentBatch)]
       sample_deployed"

definition sample_submitted_requested :: state where
  "sample_submitted_requested =
     run sample_platform [(at alice 500, RequestBatchDecryption 1)] sample_submitted"

text \<open>The contract with the provider \<open>bob\<close>, and the contract whose owner is the zero address.\<close>

definition sample_with_provider :: state where
  "sample_with_provider = run sample_platform [(at alice 10, AddProvider bob)] sample_deployed"

definition sample_renounced :: state where
  "sample_renounced = run sample_platform [(at alice 50, TransferOwnership 0)] sample_deployed"

text \<open>
  The submissions of the second run with one more handle, for a third asset that is
  not in the list of the contract.
\<close>

definition sample_other_amounts :: "uint256 \<Rightarrow> address \<Rightarrow> euint32" where
  "sample_other_amounts b a =
     (if a = 0x3333333333333333333333333333333333333333 then 0x99
      else encryptedAssetAmounts sample_submitted b a)"

text \<open>
  A trace in which the owner closes batch \<open>1\<close> before opening batch \<open>2\<close>; the last call is
  from \<open>bob\<close>, who is not the owner, and reverts.
\<close>

definition sample_closing_trace :: "(env \<times> call) list" where
  "sample_closing_trace =
     [(at alice 100, CloseCurrentBatch), (at alice 200, OpenNewBatch), (at bob 300, OpenNewBatch)]"

text \<open>
  The hash does not collide on two byte strings: when it gives them the same value,
  they are the same string.
\<close>

definition no_collision :: "platform \<Rightarrow> bytes \<Rightarrow> bytes \<Rightarrow> bool" where
  "no_collision x bs bs' \<longleftrightarrow> (keccak256 x bs = keccak256 x bs' \<longrightarrow> bs = bs')"

text \<open>
  The storage of the second run after its request, with the hedge handle of the second
  asset replaced behind the contract's back: no function of the contract writes to
  a closed batch.
\<close>

definition sample_changed_hedges :: "uint256 \<Rightarrow> address \<Rightarrow> euint32" where
  "sample_changed_hedges =
     (encryptedHedgeAmounts sample_submitted_requested)
       (1 := (encryptedHedgeAmounts sample_submitted_requested 1)
               (0x2222222222222222222222222222222222222222 := 0xCD))"

definition sample_tampered :: state where
  "sample_tampered =
     with_submissions sample_submitted_requested
       (encryptedAssetAmounts sample_submitted_requested) sample_changed_hedges"

text \<open>A trace that starts with two open batches: the owner closes batch \<open>2\<close> and opens batch \<open>3\<close>.\<close>

definition sample_later_trace :: "(env \<times> call) list" where
  "sample_later_trace = [(at alice 200, CloseCurrentBatch), (at alice 300, OpenNewBatch)]"

section \<open>Properties\<close>

subsection \<open>Arithmetic and the two loops\<close>

lemma replicate4: "replicate 4 x = [x, x, x, x]"
  by (simp add: numeral_eq_Suc)

lemma build_cts_eq:
  "build_cts s b =
     [encryptedAssetAmounts s b 0x1111111111111111111111111111111111111111,
      encryptedHedgeAmounts s b 0x1111111111111111111111111111111111111111,
      encryptedAssetAmounts s b 0x2222222222222222222222222222222222222222,
      encryptedHedgeAmounts s b 0x2222222222222222222222222222222222222222]"
  by (simp add: build_cts_def assets_def FHE_toBytes32_def replicate4)

lemma checked_add_Inr:
  assumes "checked_add a b = Inr n"
  shows "n = a + b" and "unat n = unat a + unat b"
proof -
  from assms have lt: "unat a + unat b < 2 ^ LENGTH(256)" and n: "n = a + b"
    by (auto simp: checked_add_def split: if_splits)
  from lt have "unat (a + b) = unat a + unat b" by (simp only: unat_add_lem)
  with n show "n = a + b" and "unat n = unat a + unat b" by simp_all
qed

lemma checked_add_Inl: "checked_add a b = Inl err \<Longrightarrow> err = Panic"
  by (auto simp: checked_add_def split: if_splits)

lemma succ_fresh:
  assumes "checked_add c 1 = Inr n" and "n \<le> r"
  shows "c \<le> r" and "r \<noteq> c"
proof -
  from assms(1) have "unat n = unat c + 1" by (simp add: checked_add_Inr(2))
  moreover from assms(2) have "unat n \<le> unat r" by (simp add: word_le_nat_alt)
  ultimately have "unat c < unat r" by simp
  then show "c \<le> r" and "r \<noteq> c" by (auto simp: word_le_nat_alt)
qed

lemma decode_loop_2:
  "decode_loop ct (Suc (Suc 0)) 0 0 [0, 0] [0, 0] =
     (if 128 \<le> length ct
      then Inr ([abi_decode_uint256 (take 32 ct), abi_decode_uint256 (take 32 (drop 64 ct))],
                [abi_decode_uint256 (take 32 (drop 32 ct)),
                 abi_decode_uint256 (take 32 (drop 96 ct))])
      else Inl SliceOutOfBounds)"
  by (simp add: slice_def)

lemmas op_defs =
  transferOwnership_def addProvider_def removeProvider_def setPaused_def setCooldownSeconds_def
  openNewBatch_def closeCurrentBatch_def submitEncryptedAssetAmount_def
  submitEncryptedHedgeAmount_def requestBatchDecryption_def myCallback_def
  onlyOwner_def onlyProvider_def whenNotPaused_def submissionCooldown_def decryptionCooldown_def
  initIfNeeded_def FHE_requestDecryption_def emit_def

subsection \<open>The request and the callback as case distinctions\<close>

lemma myCallback_cases:
  "myCallback x e r ct pf s =
     (if processed (decryptionContexts s r) then Inl ReplayAttempt
      else if hashCiphertexts x (build_cts s (batchId (decryptionContexts s r))) \<noteq>
              stateHash (decryptionContexts s r) then Inl StateMismatch
      else if \<not> FHE_checkSignatures x r ct pf then Inl InvalidDecryptionProof
      else if length ct < 128 then Inl SliceOutOfBounds
      else Inr (s\<lparr>decryptionContexts :=
                    (decryptionContexts s)(r := (decryptionContexts s r)\<lparr>processed := True\<rparr>),
                  events := events s @
                    [DecryptionCompleted r (batchId (decryptionContexts s r))
                       [abi_decode_uint256 (take 32 ct), abi_decode_uint256 (take 32 (drop 64 ct))]
                       [abi_decode_uint256 (take 32 (drop 32 ct)),
                        abi_decode_uint256 (take 32 (drop 96 ct))]]\<rparr>))"
  by (simp add: myCallback_def assets_def decode_loop_2 emit_def Let_def del: decode_loop.simps)

lemma requestBatchDecryption_cases:
  "requestBatchDecryption x e bid s =
     (if msg_sender e \<noteq> owner s then Inl NotOwner
      else if paused s then Inl Paused
      else case checked_add (lastDecryptionRequestTime s (msg_sender e)) (cooldownSeconds s) of
             Inl err \<Rightarrow> Inl err
           | Inr limit \<Rightarrow>
               if block_timestamp e < limit then Inl CooldownActive
               else if \<not> isBatchClosed s bid then Inl InvalidBatch
               else (case checked_add (counterRequest s) 1 of
                       Inl err \<Rightarrow> Inl err
                     | Inr n \<Rightarrow>
                         Inr (s\<lparr>counterRequest := n,
                                decryptionContexts := (decryptionContexts s)
                                  (counterRequest s :=
                                     \<lparr>batchId = bid,
                                      stateHash = hashCiphertexts x (build_cts s bid),
                                      processed = False\<rparr>),
                                events := events s @
                                  [DecryptionRequested (counterRequest s) bid
                                     (hashCiphertexts x (build_cts s bid))],
                                lastDecryptionRequestTime :=
                                  (lastDecryptionRequestTime s)
                                    (msg_sender e := block_timestamp e)\<rparr>)))"
  by (simp add: requestBatchDecryption_def onlyOwner_def whenNotPaused_def
      decryptionCooldown_def FHE_requestDecryption_def emit_def Let_def
      split: sum.splits)

subsection \<open>The sample run\<close>

lemma sample_keccak_nonzero: "sample_keccak bs \<noteq> 0"
proof -
  have "odd (sample_keccak bs)" by (simp add: sample_keccak_def)
  then show ?thesis by auto
qed

lemma sample_hash_nonzero: "hashCiphertexts sample_platform cts \<noteq> 0"
  by (simp add: hashCiphertexts_def sample_platform_def sample_keccak_nonzero)

lemma sample_cleartexts_decode:
  "length sample_cleartexts = 128"
  "abi_decode_uint256 (take 32 sample_cleartexts) = 100"
  "abi_decode_uint256 (take 32 (drop 32 sample_cleartexts)) = 0"
  "abi_decode_uint256 (take 32 (drop 64 sample_cleartexts)) = 50"
  "abi_decode_uint256 (take 32 (drop 96 sample_cleartexts)) = 20"
  "abi_decode_uint256 (drop 96 sample_cleartexts) = 20"
  by code_simp+

lemma sample_check: "FHE_checkSignatures sample_platform r ct [1]"
  by (simp add: sample_platform_def)

lemma sample_deployed_eq:
  "sample_deployed =
     \<lparr>owner = alice, isProvider = (\<lambda>_. False), paused = False, cooldownSeconds = 60,
      lastSubmissionTime = (\<lambda>_. 0), lastDecryptionRequestTime = (\<lambda>_. 0),
      currentBatchId = 1, isBatchClosed = (\<lambda>_. False),
      decryptionContexts = (\<lambda>_. zero_context),
      encryptedAssetAmounts = (\<lambda>_ _. 0), encryptedHedgeAmounts = (\<lambda>_ _. 0),
      counterRequest = 0, events = [OwnershipTransferred 0 alice, BatchOpened 1]\<rparr>"
  by (simp add: sample_deployed_def constructor_def zero_storage_def emit_def at_def Let_def)

lemma sample_closed_eq:
  "sample_closed =
     sample_deployed\<lparr>isBatchClosed := (\<lambda>_. False)(1 := True),
                     events := [OwnershipTransferred 0 alice, BatchOpened 1, BatchClosedEvent 1]\<rparr>"
  by (simp add: sample_closed_def sample_deployed_eq transact_def closeCurrentBatch_def
      onlyOwner_def whenNotPaused_def emit_def at_def Let_def)

lemma sample_requested_eq:
  "sample_requested =
     sample_closed\<lparr>counterRequest := 1,
        decryptionContexts := (\<lambda>_. zero_context)
          (0 := \<lparr>batchId = 1, stateHash = hashCiphertexts sample_platform [0, 0, 0, 0],
                 processed = False\<rparr>),
        events := [OwnershipTransferred 0 alice, BatchOpened 1, BatchClosedEvent 1,
                   DecryptionRequested 0 1 (hashCiphertexts sample_platform [0, 0, 0, 0])],
        lastDecryptionRequestTime := (\<lambda>_. 0)(alice := 200)\<rparr>"
  by (simp add: sample_requested_def sample_closed_eq sample_deployed_eq transact_def
      requestBatchDecryption_cases checked_add_def build_cts_eq at_def alice_def)

lemma sample_finalized_eq:
  "sample_finalized =
     sample_requested\<lparr>
        decryptionContexts := (\<lambda>_. zero_context)
          (0 := \<lparr>batchId = 1, stateHash = hashCiphertexts sample_platform [0, 0, 0, 0],
                 processed = True\<rparr>),
        events := [OwnershipTransferred 0 alice, BatchOpened 1, BatchClosedEvent 1,
                   DecryptionRequested 0 1 (hashCiphertexts sample_platform [0, 0, 0, 0]),
                   DecryptionCompleted 0 1 [100, 50] [0, 20]]\<rparr>"
  by (simp add: sample_finalized_def sample_requested_eq sample_closed_eq sample_deployed_eq
      transact_def myCallback_cases build_cts_eq sample_cleartexts_decode sample_check)


subsection \<open>What a successful request and a successful callback change\<close>

lemma requestBatchDecryption_Inr:
  assumes "requestBatchDecryption x e bid s = Inr s'"
  shows "\<exists>n. checked_add (counterRequest s) 1 = Inr n \<and>
           s' = s\<lparr>counterRequest := n,
                  decryptionContexts := (decryptionContexts s)
                    (counterRequest s :=
                       \<lparr>batchId = bid, stateHash = hashCiphertexts x (build_cts s bid),
                        processed = False\<rparr>),
                  events := events s @
                    [DecryptionRequested (counterRequest s) bid (hashCiphertexts x (build_cts s bid))],
                  lastDecryptionRequestTime :=
                    (lastDecryptionRequestTime s)(msg_sender e := block_timestamp e)\<rparr>"
  using assms by (auto simp: requestBatchDecryption_cases split: if_splits sum.splits)

lemma myCallback_Inr:
  assumes "myCallback x e r ct pf s = Inr s'"
  shows "\<not> processed (decryptionContexts s r) \<and>
         hashCiphertexts x (build_cts s (batchId (decryptionContexts s r))) =
           stateHash (decryptionContexts s r) \<and>
         (\<exists>am hm. s' = s\<lparr>decryptionContexts := (decryptionContexts s)
                           (r := (decryptionContexts s r)\<lparr>processed := True\<rparr>),
                         events := events s @
                           [DecryptionCompleted r (batchId (decryptionContexts s r)) am hm]\<rparr>)"
  using assms by (auto simp: myCallback_cases split: if_splits)

subsection \<open>Request ids are fresh\<close>

lemma fresh_inv_constructor: "fresh_inv (constructor e)"
  by (simp add: fresh_inv_def constructor_def zero_storage_def emit_def build_cts_eq Let_def)

lemma fresh_inv_dispatch:
  assumes inv: "fresh_inv s" and h0: "hashCiphertexts x [0, 0, 0, 0] \<noteq> 0"
    and step: "dispatch x e c s = Inr s'"
  shows "fresh_inv s'"
proof (cases c)
  case (RequestBatchDecryption bid)
  with step obtain n where n: "checked_add (counterRequest s) 1 = Inr n"
    and s': "s' = s\<lparr>counterRequest := n,
                  decryptionContexts := (decryptionContexts s)
                    (counterRequest s :=
                       \<lparr>batchId = bid, stateHash = hashCiphertexts x (build_cts s bid),
                        processed = False\<rparr>),
                  events := events s @
                    [DecryptionRequested (counterRequest s) bid (hashCiphertexts x (build_cts s bid))],
                  lastDecryptionRequestTime :=
                    (lastDecryptionRequestTime s)(msg_sender e := block_timestamp e)\<rparr>"
    using requestBatchDecryption_Inr by fastforce
  have "decryptionContexts s' r = zero_context" if "counterRequest s' \<le> r" for r
  proof -
    from that s' have "n \<le> r" by simp
    with n have "counterRequest s \<le> r" and "r \<noteq> counterRequest s"
      by (rule succ_fresh)+
    with inv s' show ?thesis by (simp add: fresh_inv_def)
  qed
  moreover from inv s' have "currentBatchId s' \<noteq> 0" and "build_cts s' 0 = [0, 0, 0, 0]"
    by (simp_all add: fresh_inv_def build_cts_eq)
  ultimately show ?thesis by (simp add: fresh_inv_def)
next
  case (MyCallback r ct pf)
  with step have cb: "myCallback x e r ct pf s = Inr s'" by simp
  from myCallback_Inr [OF cb] obtain am hm where
    np: "hashCiphertexts x (build_cts s (batchId (decryptionContexts s r))) =
           stateHash (decryptionContexts s r)"
    and s': "s' = s\<lparr>decryptionContexts := (decryptionContexts s)
                           (r := (decryptionContexts s r)\<lparr>processed := True\<rparr>),
                         events := events s @
                           [DecryptionCompleted r (batchId (decryptionContexts s r)) am hm]\<rparr>"
    by blast
  have "\<not> counterRequest s \<le> r"
  proof
    assume "counterRequest s \<le> r"
    with inv have "decryptionContexts s r = zero_context" by (simp add: fresh_inv_def)
    with np inv h0 show False by (simp add: zero_context_def fresh_inv_def)
  qed
  with inv s' show ?thesis by (auto simp: fresh_inv_def build_cts_eq)
next
  case OpenNewBatch
  with assms show ?thesis
    by (auto simp: op_defs fresh_inv_def build_cts_eq Let_def
        split: if_splits sum.splits dest!: checked_add_Inr(2))
qed (use assms in \<open>auto simp: op_defs fresh_inv_def build_cts_eq Let_def
        split: if_splits sum.splits\<close>)

lemma fresh_inv_transact:
  "fresh_inv s \<Longrightarrow> hashCiphertexts x [0, 0, 0, 0] \<noteq> 0 \<Longrightarrow> fresh_inv (snd (transact x e c s))"
  by (auto simp: transact_def split: sum.splits intro: fresh_inv_dispatch)

lemma reachable_fresh_inv:
  "reachable x s \<Longrightarrow> hashCiphertexts x [0, 0, 0, 0] \<noteq> 0 \<Longrightarrow> fresh_inv s"
  by (induction rule: reachable.induct) (auto intro: fresh_inv_constructor fresh_inv_transact)

lemma reachable_run: "reachable x s \<Longrightarrow> reachable x (run x tr s)"
proof (induction tr arbitrary: s)
  case Nil
  then show ?case by simp
next
  case (Cons ec tr)
  obtain e c where ec: "ec = (e, c)" by (cases ec)
  from Cons.prems have "reachable x (snd (transact x e c s))" by (rule reachable_transact)
  then have "reachable x (run x tr (snd (transact x e c s)))" by (rule Cons.IH)
  with ec show ?case by simp
qed

lemma processed_dispatch:
  assumes inv: "fresh_inv s" and h0: "hashCiphertexts x [0, 0, 0, 0] \<noteq> 0"
    and step: "dispatch x e c s = Inr s'" and p: "processed (decryptionContexts s r)"
  shows "processed (decryptionContexts s' r)"
proof (cases c)
  case (RequestBatchDecryption bid)
  from inv p have "\<not> counterRequest s \<le> r" by (auto simp: fresh_inv_def zero_context_def)
  then have "r \<noteq> counterRequest s" by auto
  with step p RequestBatchDecryption show ?thesis
    by (auto dest!: requestBatchDecryption_Inr)
next
  case (MyCallback r' ct pf)
  with step p show ?thesis by (auto dest!: myCallback_Inr)
qed (use step p in \<open>auto simp: op_defs Let_def split: if_splits sum.splits\<close>)

lemma processed_transact:
  assumes "fresh_inv s" and "hashCiphertexts x [0, 0, 0, 0] \<noteq> 0"
    and "processed (decryptionContexts s r)"
  shows "processed (decryptionContexts (snd (transact x e c s)) r)"
proof (cases "dispatch x e c s")
  case (Inl err)
  with assms(3) show ?thesis by (simp add: transact_def)
next
  case (Inr s')
  with assms have "processed (decryptionContexts s' r)" by (blast intro: processed_dispatch)
  with Inr show ?thesis by (simp add: transact_def)
qed

lemma processed_run:
  assumes "hashCiphertexts x [0, 0, 0, 0] \<noteq> 0"
  shows "reachable x s \<Longrightarrow> processed (decryptionContexts s r) \<Longrightarrow>
         processed (decryptionContexts (run x tr s) r)"
proof (induction tr arbitrary: s)
  case Nil
  then show ?case by simp
next
  case (Cons ec tr)
  obtain e c where ec: "ec = (e, c)" by (cases ec)
  from Cons.prems(1) assms have "fresh_inv s" by (rule reachable_fresh_inv)
  with assms Cons.prems(2) have "processed (decryptionContexts (snd (transact x e c s)) r)"
    by (simp add: processed_transact)
  moreover from Cons.prems(1) have "reachable x (snd (transact x e c s))"
    by (rule reachable_transact)
  ultimately have "processed (decryptionContexts (run x tr (snd (transact x e c s))) r)"
    by (rule Cons.IH [rotated])
  with ec show ?case by simp
qed

lemma reachable_samples:
  "reachable sample_platform sample_deployed"
  "reachable sample_platform sample_closed"
  "reachable sample_platform sample_requested"
  "reachable sample_platform sample_finalized"
  "reachable sample_platform sample_two_open"
  "reachable sample_platform sample_paused"
  unfolding sample_deployed_def sample_closed_def sample_requested_def
    sample_finalized_def sample_two_open_def sample_paused_def
  by (intro reachable_run reachable_constructor)+

subsection \<open>The replay guard\<close>

text \<open>
  Claim C1. A callback on a context that is processed reverts with \<open>ReplayAttempt\<close> and
  leaves the storage as it was, whatever cleartexts and proof it brings. Once the
  context of a request id is processed in a state the contract has reached, it stays
  processed whatever transactions follow, so the flag goes from false to true at most
  once. The request ids of the oracle are unique (the counter), and the hash of four
  zero handles is taken not to be zero, as for a hash function whose preimage of zero
  is unknown.
\<close>

theorem processed_never_reverses:
  "(processed (decryptionContexts s r) \<longrightarrow>
    transact x e (MyCallback r cleartexts prf) s = (Some ReplayAttempt, s)) \<and>
   (reachable x s \<and> hashCiphertexts x [0, 0, 0, 0] \<noteq> 0 \<and>
    processed (decryptionContexts s r) \<longrightarrow>
    processed (decryptionContexts (run x tr s) r) \<and>
    transact x e (MyCallback r cleartexts prf) (run x tr s) =
      (Some ReplayAttempt, run x tr s))"
proof (intro conjI impI)
  assume "processed (decryptionContexts s r)"
  then show "transact x e (MyCallback r cleartexts prf) s = (Some ReplayAttempt, s)"
    by (simp add: transact_def myCallback_def)
next
  assume a: "reachable x s \<and> hashCiphertexts x [0, 0, 0, 0] \<noteq> 0 \<and>
    processed (decryptionContexts s r)"
  then show p: "processed (decryptionContexts (run x tr s) r)" by (simp add: processed_run)
  then show "transact x e (MyCallback r cleartexts prf) (run x tr s) =
      (Some ReplayAttempt, run x tr s)"
    by (simp add: transact_def myCallback_def)
qed

text \<open>
  Witness for C1: the request \<open>0\<close> of the sample run is finalized; a further decryption
  request does not reset it, and a second callback with the same valid proof reverts,
  at once and after that request.
\<close>

theorem processed_never_reverses_witness:
  "reachable sample_platform sample_finalized \<and>
   hashCiphertexts sample_platform [0, 0, 0, 0] \<noteq> 0 \<and>
   processed (decryptionContexts sample_finalized 0) \<and>
   transact sample_platform (at relayer 350) (MyCallback 0 sample_cleartexts [1])
     sample_finalized = (Some ReplayAttempt, sample_finalized) \<and>
   processed (decryptionContexts
     (run sample_platform [(at alice 400, RequestBatchDecryption 1)] sample_finalized) 0) \<and>
   transact sample_platform (at relayer 500) (MyCallback 0 sample_cleartexts [1])
     (run sample_platform [(at alice 400, RequestBatchDecryption 1)] sample_finalized) =
   (Some ReplayAttempt,
    run sample_platform [(at alice 400, RequestBatchDecryption 1)] sample_finalized)"
proof -
  have r: "reachable sample_platform sample_finalized" by (rule reachable_samples)
  have h: "hashCiphertexts sample_platform [0, 0, 0, 0] \<noteq> 0" by (rule sample_hash_nonzero)
  have p: "processed (decryptionContexts sample_finalized 0)"
    by (simp add: sample_finalized_eq)
  from processed_never_reverses
    [where s = sample_finalized and r = 0 and x = sample_platform and e = "at relayer 350"
       and cleartexts = sample_cleartexts, THEN conjunct1] p
  have one: "transact sample_platform (at relayer 350) (MyCallback 0 sample_cleartexts [1])
     sample_finalized = (Some ReplayAttempt, sample_finalized)" by blast
  from processed_never_reverses
    [where s = sample_finalized and r = 0 and x = sample_platform and e = "at relayer 500"
       and cleartexts = sample_cleartexts
       and tr = "[(at alice 400, RequestBatchDecryption 1)]", THEN conjunct2] r h p
  have two: "processed (decryptionContexts
     (run sample_platform [(at alice 400, RequestBatchDecryption 1)] sample_finalized) 0) \<and>
   transact sample_platform (at relayer 500) (MyCallback 0 sample_cleartexts [1])
     (run sample_platform [(at alice 400, RequestBatchDecryption 1)] sample_finalized) =
   (Some ReplayAttempt,
    run sample_platform [(at alice 400, RequestBatchDecryption 1)] sample_finalized)" by blast
  from r h p one two show ?thesis by blast
qed

lemma transact_callback:
  "transact x e (MyCallback r ct pf) s =
     (case myCallback x e r ct pf s of Inl err \<Rightarrow> (Some err, s) | Inr s' \<Rightarrow> (None, s'))"
  by (simp add: transact_def)

subsection \<open>A callback for a request id without a context\<close>

text \<open>
  Counterexample to C7 as stated. The callback has no test for a missing context: a
  request id never stored reads as the zero context, and on the freshly deployed
  contract the callback for request id \<open>7\<close> reverts with \<open>StateMismatch\<close>, not with
  \<open>InvalidBatch\<close>.
\<close>

theorem callback_unknown_request_counterexample:
  "decryptionContexts sample_deployed 7 = zero_context \<and>
   fst (transact sample_platform (at relayer 50) (MyCallback 7 sample_cleartexts [1])
          sample_deployed) = Some StateMismatch \<and>
   fst (transact sample_platform (at relayer 50) (MyCallback 7 sample_cleartexts [1])
          sample_deployed) \<noteq> Some InvalidBatch"
  by (simp add: transact_callback myCallback_cases sample_deployed_eq zero_context_def
      sample_hash_nonzero)

text \<open>
  Claim C7, amended. In every reachable state, the callback for a request id whose
  context is the zero context (none was stored) reverts with \<open>StateMismatch\<close>, never
  with \<open>InvalidBatch\<close>, and the storage is unchanged; this as long as the hash of the
  snapshot of four zero handles is not zero, the \<open>stateHash\<close> of the zero context.
\<close>

theorem callback_unknown_request:
  assumes "decryptionContexts s r = zero_context"
    and "reachable x s" and "hashCiphertexts x [0, 0, 0, 0] \<noteq> 0"
  shows "transact x e (MyCallback r cleartexts prf) s = (Some StateMismatch, s) \<and>
         fst (transact x e (MyCallback r cleartexts prf) s) \<noteq> Some InvalidBatch"
proof -
  from assms(2,3) have "build_cts s 0 = [0, 0, 0, 0]"
    using reachable_fresh_inv by (simp add: fresh_inv_def)
  with assms(1,3) show ?thesis
    by (simp add: transact_callback myCallback_cases zero_context_def)
qed

text \<open>Witness for C7: request id \<open>9\<close> after the first request of the sample run.\<close>

theorem callback_unknown_request_witness:
  "decryptionContexts sample_requested 9 = zero_context \<and>
   reachable sample_platform sample_requested \<and>
   hashCiphertexts sample_platform [0, 0, 0, 0] \<noteq> 0 \<and>
   transact sample_platform (at relayer 300) (MyCallback 9 sample_cleartexts [1]) sample_requested =
     (Some StateMismatch, sample_requested)"
proof -
  have a: "decryptionContexts sample_requested 9 = zero_context"
    by (simp add: sample_requested_eq)
  have b: "reachable sample_platform sample_requested" by (rule reachable_samples)
  have c: "hashCiphertexts sample_platform [0, 0, 0, 0] \<noteq> 0" by (rule sample_hash_nonzero)
  from callback_unknown_request [OF a b c] a b c show ?thesis by blast
qed

subsection \<open>A request on a batch that is not closed\<close>

lemma transact_request:
  "transact x e (RequestBatchDecryption bid) s =
     (case requestBatchDecryption x e bid s of Inl err \<Rightarrow> (Some err, s) | Inr s' \<Rightarrow> (None, s'))"
  by (simp add: transact_def)

text \<open>
  Counterexample to C8 as stated. The modifiers run before the body: on the new
  contract the owner asks for the open batch \<open>1\<close> at time 59, inside the cooldown of 60
  seconds, and the request reverts with \<open>CooldownActive\<close>, not with \<open>InvalidBatch\<close>.
\<close>

theorem request_open_batch_counterexample:
  "\<not> isBatchClosed sample_deployed 1 \<and>
   msg_sender (at alice 59) = owner sample_deployed \<and>
   transact sample_platform (at alice 59) (RequestBatchDecryption 1) sample_deployed =
     (Some CooldownActive, sample_deployed)"
  by (simp add: transact_request requestBatchDecryption_cases sample_deployed_eq at_def
      checked_add_def)

text \<open>
  Claim C8, amended. A decryption request on a batch that is not closed always reverts
  and leaves the storage as it was: no context is stored and the cooldown timestamp
  of the requester is unchanged. The error is the one of the first check that fails,
  in the order of the code: \<open>NotOwner\<close> for a caller who is not the owner, \<open>Paused\<close>
  when the contract is paused, \<open>Panic\<close> when the end of the cooldown overflows,
  \<open>CooldownActive\<close> inside the cooldown, and \<open>InvalidBatch\<close> when all of these pass.
\<close>

theorem request_open_batch_fails:
  assumes "\<not> isBatchClosed s bid"
  shows "transact x e (RequestBatchDecryption bid) s =
           (Some (if msg_sender e \<noteq> owner s then NotOwner
                  else if paused s then Paused
                  else case checked_add (lastDecryptionRequestTime s (msg_sender e))
                              (cooldownSeconds s) of
                         Inl err \<Rightarrow> Panic
                       | Inr limit \<Rightarrow>
                           if block_timestamp e < limit then CooldownActive else InvalidBatch),
            s) \<and>
         snd (transact x e (RequestBatchDecryption bid) s) = s \<and>
         fst (transact x e (RequestBatchDecryption bid) s) \<in>
           {Some NotOwner, Some Paused, Some Panic, Some CooldownActive, Some InvalidBatch} \<and>
         (msg_sender e = owner s \<and> \<not> paused s \<and>
          checked_add (lastDecryptionRequestTime s (msg_sender e)) (cooldownSeconds s) = Inr limit \<and>
          \<not> block_timestamp e < limit \<longrightarrow>
          transact x e (RequestBatchDecryption bid) s = (Some InvalidBatch, s))"
  using assms
  by (auto simp: transact_request requestBatchDecryption_cases split: sum.splits
      dest: checked_add_Inl)

text \<open>
  Witness for C8: the owner asks for batch \<open>1\<close> of the new contract, still open, after
  the cooldown.
\<close>

theorem request_open_batch_fails_witness:
  "\<not> isBatchClosed sample_deployed 1 \<and>
   msg_sender (at alice 100) = owner sample_deployed \<and> \<not> paused sample_deployed \<and>
   checked_add (lastDecryptionRequestTime sample_deployed (msg_sender (at alice 100)))
     (cooldownSeconds sample_deployed) = Inr 60 \<and>
   \<not> block_timestamp (at alice 100) < 60 \<and>
   transact sample_platform (at alice 100) (RequestBatchDecryption 1) sample_deployed =
     (Some InvalidBatch, sample_deployed)"
proof -
  have a: "\<not> isBatchClosed sample_deployed 1" by (simp add: sample_deployed_eq)
  have b: "msg_sender (at alice 100) = owner sample_deployed \<and> \<not> paused sample_deployed \<and>
   checked_add (lastDecryptionRequestTime sample_deployed (msg_sender (at alice 100)))
     (cooldownSeconds sample_deployed) = Inr 60 \<and>
   \<not> block_timestamp (at alice 100) < 60"
    by (simp add: sample_deployed_eq at_def checked_add_def)
  from request_open_batch_fails [OF a, of sample_platform "at alice 100" 60] a b
  show ?thesis by blast
qed

subsection \<open>Decoding a word undoes its encoding\<close>

lemma ucast_byte: "(ucast (ucast (v :: 256 word) :: 8 word) :: 256 word) = take_bit 8 v"
  by (simp add: unsigned_ucast_eq)

lemma decode_prefix:
  "k \<le> 32 \<Longrightarrow>
   foldl (\<lambda>acc b. acc * 256 + ucast b) (0 :: 256 word)
     (map (\<lambda>i. ucast (drop_bit (8 * (31 - i)) w) :: 8 word) [0..<k]) = drop_bit (8 * (32 - k)) w"
proof (induction k)
  case 0
  show ?case by (simp add: drop_bit_word_beyond) 
next
  case (Suc k)
  let ?v = "drop_bit (8 * (31 - k)) w"
  have "drop_bit (8 * (32 - k)) w = drop_bit 8 ?v"
    using Suc.prems by (simp add: drop_bit_drop_bit algebra_simps) 
  with Suc have "foldl (\<lambda>acc b. acc * 256 + ucast b) (0 :: 256 word)
     (map (\<lambda>i. ucast (drop_bit (8 * (31 - i)) w) :: 8 word) [0..<Suc k]) =
     drop_bit 8 ?v * 256 + take_bit 8 ?v"
    by (simp add: ucast_byte)
  also have "\<dots> = ?v"
    using bits_ident [of 8 ?v] by (simp add: push_bit_eq_mult)
  finally show ?case by simp
qed

lemma abi_roundtrip: "abi_decode_uint256 (uint256_to_bytes w) = w"
  using decode_prefix [of 32 w] by (simp add: abi_decode_uint256_def uint256_to_bytes_def)

lemma length_uint256_to_bytes: "length (uint256_to_bytes w) = 32"
  by (simp add: uint256_to_bytes_def)

subsection \<open>The encoding of the snapshot determines the handles and the address\<close>

lemma uint256_to_bytes_inj: "uint256_to_bytes v = uint256_to_bytes w \<Longrightarrow> v = w"
  by (metis abi_roundtrip)

lemma concat_words_inj:
  "length vs = length ws \<Longrightarrow>
   concat (map uint256_to_bytes vs) = concat (map uint256_to_bytes ws) \<Longrightarrow> vs = ws"
proof (induction vs ws rule: list_induct2)
  case Nil
  then show ?case by simp
next
  case (Cons v vs w ws)
  from Cons.prems have "uint256_to_bytes v = uint256_to_bytes w \<and>
      concat (map uint256_to_bytes vs) = concat (map uint256_to_bytes ws)"
    by (simp add: length_uint256_to_bytes)
  with Cons.IH show ?case by (simp add: uint256_to_bytes_inj)
qed

lemma length_concat_words: "length (concat (map uint256_to_bytes ws)) = 32 * length ws"
  by (induction ws) (simp_all add: length_uint256_to_bytes)

lemma ucast_address_inj:
  assumes "(ucast (a :: address) :: uint256) = ucast a'"
  shows "a = a'"
proof -
  from assms have "(ucast (ucast a :: uint256) :: address) = ucast (ucast a' :: uint256)"
    by simp
  then show ?thesis by (simp add: ucast_up_ucast is_up)
qed

lemma abi_encode_cts_inj:
  assumes "abi_encode_cts cts a = abi_encode_cts cts' a'"
  shows "cts = cts' \<and> a = a'"
proof -
  let ?ws = "[0x40, ucast a, of_nat (length cts)] @ cts"
  let ?ws' = "[0x40, ucast a', of_nat (length cts')] @ cts'"
  from assms have eq: "concat (map uint256_to_bytes ?ws) = concat (map uint256_to_bytes ?ws')"
    by (simp only: abi_encode_cts_def)
  then have "length (concat (map uint256_to_bytes ?ws)) =
      length (concat (map uint256_to_bytes ?ws'))"
    by simp
  then have "length ?ws = length ?ws'" unfolding length_concat_words by simp
  then have "?ws = ?ws'" using eq by (rule concat_words_inj)
  then have "cts = cts'" and "(ucast a :: uint256) = ucast a'" by simp_all
  then show ?thesis by (simp add: ucast_address_inj)
qed

lemma abi_encode_cts_4:
  "abi_encode_cts [h1, h2, h3, h4] a =
     uint256_to_bytes 0x40 @ uint256_to_bytes (ucast a) @ uint256_to_bytes 4 @
     uint256_to_bytes h1 @ uint256_to_bytes h2 @ uint256_to_bytes h3 @ uint256_to_bytes h4"
  by (simp add: abi_encode_cts_def)

subsection \<open>The submissions as case distinctions\<close>

lemma submitEncryptedAssetAmount_cases:
  "submitEncryptedAssetAmount x e bid asset amount s =
     (if \<not> isProvider s (msg_sender e) then Inl NotProvider
      else if paused s then Inl Paused
      else case checked_add (lastSubmissionTime s (msg_sender e)) (cooldownSeconds s) of
             Inl err \<Rightarrow> Inl err
           | Inr limit \<Rightarrow>
               if block_timestamp e < limit then Inl CooldownActive
               else if bid \<noteq> currentBatchId s then Inl InvalidBatch
               else if isBatchClosed s bid then Inl BatchClosed
               else if \<not> FHE_isInitialized x amount then Inl NotInitialized
               else Inr (s\<lparr>encryptedAssetAmounts :=
                             (encryptedAssetAmounts s)
                               (bid := (encryptedAssetAmounts s bid)(asset := amount)),
                           events := events s @ [AssetSubmitted bid (msg_sender e) asset amount],
                           lastSubmissionTime :=
                             (lastSubmissionTime s)(msg_sender e := block_timestamp e)\<rparr>))"
  by (auto simp: submitEncryptedAssetAmount_def onlyProvider_def whenNotPaused_def
      submissionCooldown_def initIfNeeded_def emit_def Let_def split: sum.splits)

lemma submitEncryptedHedgeAmount_cases:
  "submitEncryptedHedgeAmount x e bid asset amount s =
     (if \<not> isProvider s (msg_sender e) then Inl NotProvider
      else if paused s then Inl Paused
      else case checked_add (lastSubmissionTime s (msg_sender e)) (cooldownSeconds s) of
             Inl err \<Rightarrow> Inl err
           | Inr limit \<Rightarrow>
               if block_timestamp e < limit then Inl CooldownActive
               else if bid \<noteq> currentBatchId s then Inl InvalidBatch
               else if isBatchClosed s bid then Inl BatchClosed
               else if \<not> FHE_isInitialized x amount then Inl NotInitialized
               else Inr (s\<lparr>encryptedHedgeAmounts :=
                             (encryptedHedgeAmounts s)
                               (bid := (encryptedHedgeAmounts s bid)(asset := amount)),
                           events := events s @ [HedgeSubmitted bid (msg_sender e) asset amount],
                           lastSubmissionTime :=
                             (lastSubmissionTime s)(msg_sender e := block_timestamp e)\<rparr>))"
  by (auto simp: submitEncryptedHedgeAmount_def onlyProvider_def whenNotPaused_def
      submissionCooldown_def initIfNeeded_def emit_def Let_def split: sum.splits)

lemma sample_submitted_eq:
  "sample_submitted =
     sample_deployed\<lparr>
       isProvider := (\<lambda>_. False)(bob := True),
       lastSubmissionTime := (\<lambda>_. 0)(bob := 300),
       isBatchClosed := (\<lambda>_. False)(1 := True),
       encryptedAssetAmounts := (\<lambda>_ _. 0)
         (1 := (\<lambda>_. 0)(0x1111111111111111111111111111111111111111 := 0xAA,
                         0x2222222222222222222222222222222222222222 := 0xBB)),
       encryptedHedgeAmounts := (\<lambda>_ _. 0)
         (1 := (\<lambda>_. 0)(0x2222222222222222222222222222222222222222 := 0xCC)),
       events := [OwnershipTransferred 0 alice, BatchOpened 1, ProviderAdded bob,
                  AssetSubmitted 1 bob 0x1111111111111111111111111111111111111111 0xAA,
                  AssetSubmitted 1 bob 0x2222222222222222222222222222222222222222 0xBB,
                  HedgeSubmitted 1 bob 0x2222222222222222222222222222222222222222 0xCC,
                  BatchClosedEvent 1]\<rparr>"
  by (simp add: sample_submitted_def sample_deployed_eq transact_def addProvider_def
      closeCurrentBatch_def onlyOwner_def whenNotPaused_def emit_def
      submitEncryptedAssetAmount_cases submitEncryptedHedgeAmount_cases
      checked_add_def sample_platform_def at_def alice_def bob_def Let_def)

lemma sample_submitted_request:
  "requestBatchDecryption sample_platform (at alice 500) 1 sample_submitted =
     Inr sample_submitted_requested"
proof -
  have "\<exists>t. requestBatchDecryption sample_platform (at alice 500) 1 sample_submitted = Inr t"
    by (simp add: requestBatchDecryption_cases sample_submitted_eq sample_deployed_eq
        checked_add_def at_def)
  then show ?thesis by (auto simp: sample_submitted_requested_def transact_def)
qed

lemma sample_submitted_requested_eq:
  "sample_submitted_requested =
     sample_submitted\<lparr>counterRequest := 1,
        decryptionContexts := (\<lambda>_. zero_context)
          (0 := \<lparr>batchId = 1,
                 stateHash = hashCiphertexts sample_platform [0xAA, 0, 0xBB, 0xCC],
                 processed = False\<rparr>),
        events := events sample_submitted @
          [DecryptionRequested 0 1 (hashCiphertexts sample_platform [0xAA, 0, 0xBB, 0xCC])],
        lastDecryptionRequestTime := (\<lambda>_. 0)(alice := 500)\<rparr>"
proof -
  have "requestBatchDecryption sample_platform (at alice 500) 1 sample_submitted =
     Inr (sample_submitted\<lparr>counterRequest := 1,
        decryptionContexts := (\<lambda>_. zero_context)
          (0 := \<lparr>batchId = 1,
                 stateHash = hashCiphertexts sample_platform [0xAA, 0, 0xBB, 0xCC],
                 processed = False\<rparr>),
        events := events sample_submitted @
          [DecryptionRequested 0 1 (hashCiphertexts sample_platform [0xAA, 0, 0xBB, 0xCC])],
        lastDecryptionRequestTime := (\<lambda>_. 0)(alice := 500)\<rparr>)"
    by (simp add: requestBatchDecryption_cases build_cts_eq sample_submitted_eq
        sample_deployed_eq checked_add_def at_def)
  then show ?thesis by (simp add: sample_submitted_request)
qed

subsection \<open>The snapshot, its hash and the decoding of the cleartexts\<close>

text \<open>
  Claim C3. The snapshot of a batch is the list of four handles: amount and hedge of
  the first asset, then amount and hedge of the second. A request by the owner on a
  closed batch, not paused and after the cooldown, stores the context whose
  \<open>stateHash\<close> is the hash of the encoding of that list together with the contract's
  own address, and emits \<open>DecryptionRequested\<close>. A callback that passes the replay guard,
  the hash comparison and the proof check decodes the four cleartext words in the
  same order: the first and third are the amounts, the second and fourth the hedges.
  The bytes that are hashed are seven words of 32 bytes: the offset \<open>0x40\<close>, the
  contract's address, the length \<open>4\<close> and the four handles in the order of the
  snapshot. The encoding is injective: two encodings that are equal come from the
  same list of handles and the same address. Decoding a word undoes its encoding.
\<close>

theorem snapshot_order_and_decoding:
  "build_cts s bid =
     [encryptedAssetAmounts s bid 0x1111111111111111111111111111111111111111,
      encryptedHedgeAmounts s bid 0x1111111111111111111111111111111111111111,
      encryptedAssetAmounts s bid 0x2222222222222222222222222222222222222222,
      encryptedHedgeAmounts s bid 0x2222222222222222222222222222222222222222] \<and>
   (msg_sender e = owner s \<and> \<not> paused s \<and>
    checked_add (lastDecryptionRequestTime s (msg_sender e)) (cooldownSeconds s) = Inr limit \<and>
    \<not> block_timestamp e < limit \<and> isBatchClosed s bid \<and>
    checked_add (counterRequest s) 1 = Inr n \<longrightarrow>
    requestBatchDecryption x e bid s =
      Inr (s\<lparr>counterRequest := n,
             decryptionContexts := (decryptionContexts s)
               (counterRequest s :=
                  \<lparr>batchId = bid,
                   stateHash = keccak256 x (abi_encode_cts (build_cts s bid) (address_this x)),
                   processed = False\<rparr>),
             events := events s @
               [DecryptionRequested (counterRequest s) bid
                  (keccak256 x (abi_encode_cts (build_cts s bid) (address_this x)))],
             lastDecryptionRequestTime :=
               (lastDecryptionRequestTime s)(msg_sender e := block_timestamp e)\<rparr>)) \<and>
   (\<not> processed (decryptionContexts s r) \<and>
    keccak256 x (abi_encode_cts (build_cts s (batchId (decryptionContexts s r))) (address_this x)) =
      stateHash (decryptionContexts s r) \<and>
    FHE_checkSignatures x r
      (uint256_to_bytes xa @ uint256_to_bytes xh @ uint256_to_bytes ya @ uint256_to_bytes yh) pf \<longrightarrow>
    myCallback x e' r
      (uint256_to_bytes xa @ uint256_to_bytes xh @ uint256_to_bytes ya @ uint256_to_bytes yh) pf s =
      Inr (s\<lparr>decryptionContexts :=
               (decryptionContexts s)(r := (decryptionContexts s r)\<lparr>processed := True\<rparr>),
             events := events s @
               [DecryptionCompleted r (batchId (decryptionContexts s r)) [xa, ya] [xh, yh]]\<rparr>)) \<and>
   abi_encode_cts (build_cts s bid) (address_this x) =
     uint256_to_bytes 0x40 @ uint256_to_bytes (ucast (address_this x)) @ uint256_to_bytes 4 @
     uint256_to_bytes (encryptedAssetAmounts s bid 0x1111111111111111111111111111111111111111) @
     uint256_to_bytes (encryptedHedgeAmounts s bid 0x1111111111111111111111111111111111111111) @
     uint256_to_bytes (encryptedAssetAmounts s bid 0x2222222222222222222222222222222222222222) @
     uint256_to_bytes (encryptedHedgeAmounts s bid 0x2222222222222222222222222222222222222222) \<and>
   (abi_encode_cts cts a = abi_encode_cts cts' a' \<longrightarrow> cts = cts' \<and> a = a') \<and>
   abi_decode_uint256 (uint256_to_bytes w) = w"
proof (intro conjI impI)
  show "build_cts s bid =
     [encryptedAssetAmounts s bid 0x1111111111111111111111111111111111111111,
      encryptedHedgeAmounts s bid 0x1111111111111111111111111111111111111111,
      encryptedAssetAmounts s bid 0x2222222222222222222222222222222222222222,
      encryptedHedgeAmounts s bid 0x2222222222222222222222222222222222222222]"
    by (rule build_cts_eq)
next
  assume "msg_sender e = owner s \<and> \<not> paused s \<and>
    checked_add (lastDecryptionRequestTime s (msg_sender e)) (cooldownSeconds s) = Inr limit \<and>
    \<not> block_timestamp e < limit \<and> isBatchClosed s bid \<and>
    checked_add (counterRequest s) 1 = Inr n"
  then show "requestBatchDecryption x e bid s =
      Inr (s\<lparr>counterRequest := n,
             decryptionContexts := (decryptionContexts s)
               (counterRequest s :=
                  \<lparr>batchId = bid,
                   stateHash = keccak256 x (abi_encode_cts (build_cts s bid) (address_this x)),
                   processed = False\<rparr>),
             events := events s @
               [DecryptionRequested (counterRequest s) bid
                  (keccak256 x (abi_encode_cts (build_cts s bid) (address_this x)))],
             lastDecryptionRequestTime :=
               (lastDecryptionRequestTime s)(msg_sender e := block_timestamp e)\<rparr>)"
    by (auto simp: requestBatchDecryption_cases hashCiphertexts_def)
next
  let ?ct = "uint256_to_bytes xa @ uint256_to_bytes xh @ uint256_to_bytes ya @ uint256_to_bytes yh"
  have words: "abi_decode_uint256 (take 32 ?ct) = xa"
    "abi_decode_uint256 (take 32 (drop 32 ?ct)) = xh"
    "abi_decode_uint256 (take 32 (drop 64 ?ct)) = ya"
    "abi_decode_uint256 (take 32 (drop 96 ?ct)) = yh"
    by (simp_all add: length_uint256_to_bytes abi_roundtrip)
  have len: "\<not> length ?ct < 128" by (simp add: length_uint256_to_bytes)
  assume "\<not> processed (decryptionContexts s r) \<and>
    keccak256 x (abi_encode_cts (build_cts s (batchId (decryptionContexts s r))) (address_this x)) =
      stateHash (decryptionContexts s r) \<and>
    FHE_checkSignatures x r ?ct pf"
  then show "myCallback x e' r ?ct pf s =
      Inr (s\<lparr>decryptionContexts :=
               (decryptionContexts s)(r := (decryptionContexts s r)\<lparr>processed := True\<rparr>),
             events := events s @
               [DecryptionCompleted r (batchId (decryptionContexts s r)) [xa, ya] [xh, yh]]\<rparr>)"
    unfolding myCallback_cases using words len by (simp add: hashCiphertexts_def)
next
  show "abi_encode_cts (build_cts s bid) (address_this x) =
     uint256_to_bytes 0x40 @ uint256_to_bytes (ucast (address_this x)) @ uint256_to_bytes 4 @
     uint256_to_bytes (encryptedAssetAmounts s bid 0x1111111111111111111111111111111111111111) @
     uint256_to_bytes (encryptedHedgeAmounts s bid 0x1111111111111111111111111111111111111111) @
     uint256_to_bytes (encryptedAssetAmounts s bid 0x2222222222222222222222222222222222222222) @
     uint256_to_bytes (encryptedHedgeAmounts s bid 0x2222222222222222222222222222222222222222)"
    by (simp only: build_cts_eq abi_encode_cts_4)
next
  assume "abi_encode_cts cts a = abi_encode_cts cts' a'"
  then have both: "cts = cts' \<and> a = a'" by (rule abi_encode_cts_inj)
  from both show "cts = cts'" by simp
  from both show "a = a'" by simp
next
  show "abi_decode_uint256 (uint256_to_bytes w) = w" by (rule abi_roundtrip)
qed

lemma sample_cleartexts_words:
  "uint256_to_bytes 100 @ uint256_to_bytes 0 @ uint256_to_bytes 50 @ uint256_to_bytes 20 =
   sample_cleartexts"
  by code_simp

text \<open>
  Witness for C3: the run with submissions. The snapshot of batch \<open>1\<close> is the amount
  handle of the first asset, the zero handle (no hedge was submitted for it), then the
  amount and the hedge handle of the second asset; the request succeeds and stores
  the hash of that list, and the callback with the cleartexts \<open>100, 0, 50, 20\<close> emits
  \<open>DecryptionCompleted\<close> with the amounts \<open>[100, 50]\<close> and the hedges \<open>[0, 20]\<close>.
\<close>

theorem snapshot_order_and_decoding_witness:
  "build_cts sample_submitted 1 = [0xAA, 0, 0xBB, 0xCC] \<and>
   requestBatchDecryption sample_platform (at alice 500) 1 sample_submitted =
     Inr sample_submitted_requested \<and>
   decryptionContexts sample_submitted_requested 0 =
     \<lparr>batchId = 1,
      stateHash = sample_keccak (abi_encode_cts [0xAA, 0, 0xBB, 0xCC] 0xC0FFEE),
      processed = False\<rparr> \<and>
   abi_encode_cts [0xAA, 0, 0xBB, 0xCC] 0xC0FFEE =
     uint256_to_bytes 0x40 @ uint256_to_bytes 0xC0FFEE @ uint256_to_bytes 4 @
     uint256_to_bytes 0xAA @ uint256_to_bytes 0 @ uint256_to_bytes 0xBB @ uint256_to_bytes 0xCC \<and>
   events (snd (transact sample_platform (at relayer 600) (MyCallback 0 sample_cleartexts [1])
                  sample_submitted_requested)) =
     events sample_submitted_requested @ [DecryptionCompleted 0 1 [100, 50] [0, 20]]"
proof -
  let ?s = sample_submitted
  have snap: "build_cts ?s 1 = [0xAA, 0, 0xBB, 0xCC]"
    by (simp add: build_cts_eq sample_submitted_eq sample_deployed_eq)
  have pre: "msg_sender (at alice 500) = owner ?s \<and> \<not> paused ?s \<and>
    checked_add (lastDecryptionRequestTime ?s (msg_sender (at alice 500))) (cooldownSeconds ?s) =
      Inr 60 \<and>
    \<not> block_timestamp (at alice 500) < 60 \<and> isBatchClosed ?s 1 \<and>
    checked_add (counterRequest ?s) 1 = Inr 1"
    by (simp add: sample_submitted_eq sample_deployed_eq at_def checked_add_def)
  note req = snapshot_order_and_decoding
    [where s = "?s" and bid = 1 and e = "at alice 500" and limit = 60 and n = 1
       and x = sample_platform, THEN conjunct2, THEN conjunct1, rule_format, OF pre]
  have sr: "sample_submitted_requested =
     ?s\<lparr>counterRequest := 1,
        decryptionContexts := (decryptionContexts ?s)
          (0 := \<lparr>batchId = 1,
                 stateHash = sample_keccak (abi_encode_cts [0xAA, 0, 0xBB, 0xCC] 0xC0FFEE),
                 processed = False\<rparr>),
        events := events ?s @
          [DecryptionRequested 0 1 (sample_keccak (abi_encode_cts [0xAA, 0, 0xBB, 0xCC] 0xC0FFEE))],
        lastDecryptionRequestTime := (lastDecryptionRequestTime ?s)(alice := 500)\<rparr>"
    unfolding sample_submitted_requested_def using req snap
    by (simp add: transact_def sample_platform_def at_def)
       (simp add: sample_submitted_eq sample_deployed_eq)
  have r1: "requestBatchDecryption sample_platform (at alice 500) 1 ?s =
     Inr sample_submitted_requested"
    unfolding sample_submitted_requested_def using req by (simp add: transact_def)
  let ?t = sample_submitted_requested
  have ctx: "decryptionContexts ?t 0 =
     \<lparr>batchId = 1,
      stateHash = sample_keccak (abi_encode_cts [0xAA, 0, 0xBB, 0xCC] 0xC0FFEE),
      processed = False\<rparr>"
    by (simp add: sr)
  have snap': "build_cts ?t 1 = [0xAA, 0, 0xBB, 0xCC]"
    using snap by (simp add: sr build_cts_eq)
  have pre': "\<not> processed (decryptionContexts ?t 0) \<and>
    keccak256 sample_platform
      (abi_encode_cts (build_cts ?t (batchId (decryptionContexts ?t 0)))
         (address_this sample_platform)) =
      stateHash (decryptionContexts ?t 0) \<and>
    FHE_checkSignatures sample_platform 0
      (uint256_to_bytes 100 @ uint256_to_bytes 0 @ uint256_to_bytes 50 @ uint256_to_bytes 20) [1]"
    by (simp add: ctx snap' sample_check) (simp add: sample_platform_def)
  note cb = snapshot_order_and_decoding
    [where s = "?t" and r = 0 and x = sample_platform and xa = 100 and xh = 0
       and ya = 50 and yh = 20 and pf = "[1]" and e' = "at relayer 600",
     THEN conjunct2, THEN conjunct2, THEN conjunct1, rule_format, OF pre']
  have "events (snd (transact sample_platform (at relayer 600)
                  (MyCallback 0 sample_cleartexts [1]) ?t)) =
     events ?t @ [DecryptionCompleted 0 1 [100, 50] [0, 20]]"
    using cb by (simp add: transact_def sample_cleartexts_words ctx)
  moreover have "abi_encode_cts [0xAA, 0, 0xBB, 0xCC] 0xC0FFEE =
     uint256_to_bytes 0x40 @ uint256_to_bytes 0xC0FFEE @ uint256_to_bytes 4 @
     uint256_to_bytes 0xAA @ uint256_to_bytes 0 @ uint256_to_bytes 0xBB @ uint256_to_bytes 0xCC"
    using snapshot_order_and_decoding
      [where s = "?s" and bid = 1 and x = sample_platform,
       THEN conjunct2, THEN conjunct2, THEN conjunct2, THEN conjunct1] snap
    by (simp add: sample_platform_def sample_submitted_eq sample_deployed_eq)
  ultimately show ?thesis using snap r1 ctx by blast
qed

subsection \<open>A callback that fails changes nothing\<close>

lemma sample_keccak_snoc:
  "sample_keccak (bs @ [b]) =
     2 * (foldl (\<lambda>h b. h * 257 + ucast b) 0 bs * 257 + ucast b) + 1"
  by (simp add: sample_keccak_def)

lemma sample_last_bytes:
  "uint256_to_bytes 0xCC = replicate 31 0 @ [0xCC]"
  "uint256_to_bytes 0xCD = replicate 31 0 @ [0xCD]"
  by code_simp+

lemma sample_tampered_eq:
  "sample_tampered =
     sample_submitted_requested\<lparr>encryptedHedgeAmounts := (\<lambda>_ _. 0)
       (1 := (\<lambda>_. 0)(0x2222222222222222222222222222222222222222 := 0xCD))\<rparr>"
  by (simp add: sample_tampered_def sample_changed_hedges_def with_submissions_def
      sample_submitted_requested_eq sample_submitted_eq sample_deployed_eq)

lemma sample_hash_changed:
  "sample_keccak (abi_encode_cts [0xAA, 0, 0xBB, 0xCC] a) \<noteq>
   sample_keccak (abi_encode_cts [0xAA, 0, 0xBB, 0xCD] a)"
proof -
  let ?p = "uint256_to_bytes 0x40 @ uint256_to_bytes (ucast a) @ uint256_to_bytes 4 @
     uint256_to_bytes 0xAA @ uint256_to_bytes 0 @ uint256_to_bytes 0xBB @ replicate 31 0"
  have "abi_encode_cts [0xAA, 0, 0xBB, 0xCC] a = ?p @ [0xCC]"
    and "abi_encode_cts [0xAA, 0, 0xBB, 0xCD] a = ?p @ [0xCD]"
    by (simp_all only: abi_encode_cts_4 sample_last_bytes append_assoc)
  then show ?thesis by (simp only: sample_keccak_snoc) simp
qed

text \<open>
  Claim C2. A context stored by a request holds the hash of the handles the batch had
  then. When the handles now stored for the batch are not those (one of the four
  slots has changed), the encodings differ, and unless the hash collides on the two
  encodings the callback reverts with \<open>StateMismatch\<close>; the storage is what it was and
  \<open>processed\<close> stays false. More generally a callback on a context that is not
  processed, for which the recomputed hash differs from the stored \<open>stateHash\<close>,
  reverts with \<open>StateMismatch\<close>, and whatever the error of a callback, the storage, the
  flag and the log are unchanged.
\<close>

theorem callback_state_mismatch_atomic:
  "(decryptionContexts s r =
      \<lparr>batchId = bid, stateHash = hashCiphertexts x old, processed = False\<rparr> \<and>
    build_cts s bid \<noteq> old \<and>
    no_collision x (abi_encode_cts old (address_this x))
      (abi_encode_cts (build_cts s bid) (address_this x)) \<longrightarrow>
    transact x e (MyCallback r cleartexts pf) s = (Some StateMismatch, s) \<and>
    \<not> processed (decryptionContexts (snd (transact x e (MyCallback r cleartexts pf) s)) r)) \<and>
   (\<not> processed (decryptionContexts s r) \<and>
    hashCiphertexts x (build_cts s (batchId (decryptionContexts s r))) \<noteq>
      stateHash (decryptionContexts s r) \<longrightarrow>
    transact x e (MyCallback r cleartexts pf) s = (Some StateMismatch, s)) \<and>
   (transact x e (MyCallback r cleartexts pf) s = (Some err, s') \<longrightarrow>
    s' = s \<and> processed (decryptionContexts s' r) = processed (decryptionContexts s r) \<and>
    events s' = events s)"
proof (intro conjI impI)
  assume a: "decryptionContexts s r =
      \<lparr>batchId = bid, stateHash = hashCiphertexts x old, processed = False\<rparr> \<and>
    build_cts s bid \<noteq> old \<and>
    no_collision x (abi_encode_cts old (address_this x))
      (abi_encode_cts (build_cts s bid) (address_this x))"
  have "abi_encode_cts old (address_this x) \<noteq> abi_encode_cts (build_cts s bid) (address_this x)"
  proof
    assume "abi_encode_cts old (address_this x) =
      abi_encode_cts (build_cts s bid) (address_this x)"
    then have "old = build_cts s bid" using abi_encode_cts_inj by blast
    with a show False by simp
  qed
  with a have "hashCiphertexts x (build_cts s bid) \<noteq> hashCiphertexts x old"
    by (auto simp: no_collision_def hashCiphertexts_def)
  with a show m: "transact x e (MyCallback r cleartexts pf) s = (Some StateMismatch, s)"
    by (simp add: transact_callback myCallback_cases)
  from a show "\<not> processed (decryptionContexts (snd (transact x e (MyCallback r cleartexts pf) s)) r)"
    unfolding m by simp
next
  assume "\<not> processed (decryptionContexts s r) \<and>
    hashCiphertexts x (build_cts s (batchId (decryptionContexts s r))) \<noteq>
      stateHash (decryptionContexts s r)"
  then show "transact x e (MyCallback r cleartexts pf) s = (Some StateMismatch, s)"
    by (simp add: transact_callback myCallback_cases)
next
  assume f: "transact x e (MyCallback r cleartexts pf) s = (Some err, s')"
  then show s: "s' = s" by (auto simp: transact_def split: sum.splits)
  then show "processed (decryptionContexts s' r) = processed (decryptionContexts s r)"
    and "events s' = events s" by simp_all
qed

text \<open>
  Witness for C2: the request of the second run stored the hash of the handles
  \<open>0xAA, 0, 0xBB, 0xCC\<close>; in the storage where the last handle has become \<open>0xCD\<close> the
  callback with the valid proof reverts with \<open>StateMismatch\<close>.
\<close>

theorem callback_state_mismatch_atomic_witness:
  "requestBatchDecryption sample_platform (at alice 500) 1 sample_submitted =
     Inr sample_submitted_requested \<and>
   build_cts sample_submitted 1 = [0xAA, 0, 0xBB, 0xCC] \<and>
   decryptionContexts sample_tampered 0 =
     \<lparr>batchId = 1, stateHash = hashCiphertexts sample_platform [0xAA, 0, 0xBB, 0xCC],
      processed = False\<rparr> \<and>
   build_cts sample_tampered 1 = [0xAA, 0, 0xBB, 0xCD] \<and>
   build_cts sample_tampered 1 \<noteq> [0xAA, 0, 0xBB, 0xCC] \<and>
   no_collision sample_platform
     (abi_encode_cts [0xAA, 0, 0xBB, 0xCC] (address_this sample_platform))
     (abi_encode_cts (build_cts sample_tampered 1) (address_this sample_platform)) \<and>
   transact sample_platform (at relayer 600) (MyCallback 0 sample_cleartexts [1]) sample_tampered =
     (Some StateMismatch, sample_tampered)"
proof -
  have old: "build_cts sample_submitted 1 = [0xAA, 0, 0xBB, 0xCC]"
    by (simp add: build_cts_eq sample_submitted_eq sample_deployed_eq)
  have ctx: "decryptionContexts sample_tampered 0 =
     \<lparr>batchId = 1, stateHash = hashCiphertexts sample_platform [0xAA, 0, 0xBB, 0xCC],
      processed = False\<rparr>"
    by (simp add: sample_tampered_eq sample_submitted_requested_eq)
  have new: "build_cts sample_tampered 1 = [0xAA, 0, 0xBB, 0xCD]"
    by (simp add: build_cts_eq sample_tampered_eq sample_submitted_requested_eq
        sample_submitted_eq sample_deployed_eq)
  then have diff: "build_cts sample_tampered 1 \<noteq> [0xAA, 0, 0xBB, 0xCC]" by simp
  have nc: "no_collision sample_platform
     (abi_encode_cts [0xAA, 0, 0xBB, 0xCC] (address_this sample_platform))
     (abi_encode_cts (build_cts sample_tampered 1) (address_this sample_platform))"
    unfolding new no_collision_def using sample_hash_changed
    by (simp add: sample_platform_def)
  from callback_state_mismatch_atomic
    [where s = sample_tampered and r = 0 and bid = 1 and x = sample_platform
       and old = "[0xAA, 0, 0xBB, 0xCC]" and e = "at relayer 600"
       and cleartexts = sample_cleartexts and pf = "[1]", THEN conjunct1] ctx diff nc
  have "transact sample_platform (at relayer 600) (MyCallback 0 sample_cleartexts [1])
      sample_tampered = (Some StateMismatch, sample_tampered)" by blast
  with sample_submitted_request old ctx new diff nc show ?thesis by blast
qed

subsection \<open>Submissions and the cooldown\<close>

lemma transact_failed: "transact x e c s = (Some err, s') \<Longrightarrow> s' = s"
  by (auto simp: transact_def split: sum.splits)

lemma submit_Inr:
  assumes "is_submit c" and "dispatch x e c s = Inr s'"
  shows "isProvider s' (msg_sender e) \<and> \<not> paused s' \<and> cooldownSeconds s' = cooldownSeconds s \<and>
         lastSubmissionTime s' (msg_sender e) = block_timestamp e \<and>
         stored s' c = submitted_handle c"
  using assms
  by (cases c)
     (auto simp: submitEncryptedAssetAmount_cases submitEncryptedHedgeAmount_cases
        split: if_splits sum.splits)

lemma submit_cooldown:
  assumes "is_submit c" and "isProvider s (msg_sender e)" and "\<not> paused s"
    and "checked_add (lastSubmissionTime s (msg_sender e)) (cooldownSeconds s) = Inr limit"
    and "block_timestamp e < limit"
  shows "dispatch x e c s = Inl CooldownActive"
  using assms
  by (cases c)
     (auto simp: submitEncryptedAssetAmount_cases submitEncryptedHedgeAmount_cases)

text \<open>
  Claim C5. A submission that fails leaves the storage as it was: no handle is
  written and \<open>lastSubmissionTime\<close> keeps its value. When a provider's submission
  succeeded at the time \<open>t\<close> and the same provider submits again before \<open>t\<close> plus the
  cooldown, the second submission reverts with \<open>CooldownActive\<close>; the handle of the
  first is still stored and the provider's timestamp is still \<open>t\<close>.
\<close>

theorem failed_submit_is_atomic:
  "(is_submit c \<and> transact x e c s = (Some err, s') \<longrightarrow> s' = s) \<and>
   (is_submit c1 \<and> is_submit c2 \<and> transact x e1 c1 s = (None, s1) \<and>
    msg_sender e2 = msg_sender e1 \<and>
    checked_add (block_timestamp e1) (cooldownSeconds s) = Inr limit \<and>
    block_timestamp e2 < limit \<longrightarrow>
    transact x e2 c2 s1 = (Some CooldownActive, s1) \<and>
    stored s1 c1 = submitted_handle c1 \<and>
    lastSubmissionTime s1 (msg_sender e1) = block_timestamp e1)"
proof (intro conjI impI)
  assume "is_submit c \<and> transact x e c s = (Some err, s')"
  then show "s' = s" by (auto dest: transact_failed)
next
  assume a: "is_submit c1 \<and> is_submit c2 \<and> transact x e1 c1 s = (None, s1) \<and>
    msg_sender e2 = msg_sender e1 \<and>
    checked_add (block_timestamp e1) (cooldownSeconds s) = Inr limit \<and>
    block_timestamp e2 < limit"
  then have "dispatch x e1 c1 s = Inr s1"
    by (auto simp: transact_def split: sum.splits)
  with a have s1: "isProvider s1 (msg_sender e1) \<and> \<not> paused s1 \<and>
      cooldownSeconds s1 = cooldownSeconds s \<and>
      lastSubmissionTime s1 (msg_sender e1) = block_timestamp e1 \<and>
      stored s1 c1 = submitted_handle c1"
    using submit_Inr [of c1 x e1 s s1] by blast
  with a have "dispatch x e2 c2 s1 = Inl CooldownActive"
    by (intro submit_cooldown [where limit = limit]) simp_all
  then show "transact x e2 c2 s1 = (Some CooldownActive, s1)" by (simp add: transact_def)
  from s1 show "stored s1 c1 = submitted_handle c1" by simp
  from s1 show "lastSubmissionTime s1 (msg_sender e1) = block_timestamp e1" by simp
qed

lemma sample_with_provider_eq:
  "sample_with_provider =
     sample_deployed\<lparr>isProvider := (\<lambda>_. False)(bob := True),
                      events := [OwnershipTransferred 0 alice, BatchOpened 1, ProviderAdded bob]\<rparr>"
  by (simp add: sample_with_provider_def sample_deployed_eq transact_def addProvider_def
      onlyOwner_def emit_def at_def)

text \<open>
  Witness for C5: \<open>bob\<close> submits the handle \<open>0xAA\<close> at time 100 and the handle \<open>0xDD\<close> for
  the same slot at time 130, with the cooldown of 60 seconds.
\<close>

theorem failed_submit_is_atomic_witness:
  "is_submit (SubmitEncryptedAssetAmount 1 0x1111111111111111111111111111111111111111 0xAA) \<and>
   is_submit (SubmitEncryptedAssetAmount 1 0x1111111111111111111111111111111111111111 0xDD) \<and>
   fst (transact sample_platform (at bob 100)
     (SubmitEncryptedAssetAmount 1 0x1111111111111111111111111111111111111111 0xAA)
     sample_with_provider) = None \<and>
   checked_add (block_timestamp (at bob 100)) (cooldownSeconds sample_with_provider) = Inr 160 \<and>
   block_timestamp (at bob 130) < 160 \<and>
   fst (transact sample_platform (at bob 130)
     (SubmitEncryptedAssetAmount 1 0x1111111111111111111111111111111111111111 0xDD)
     (snd (transact sample_platform (at bob 100)
       (SubmitEncryptedAssetAmount 1 0x1111111111111111111111111111111111111111 0xAA)
       sample_with_provider))) = Some CooldownActive \<and>
   encryptedAssetAmounts
     (snd (transact sample_platform (at bob 130)
       (SubmitEncryptedAssetAmount 1 0x1111111111111111111111111111111111111111 0xDD)
       (snd (transact sample_platform (at bob 100)
         (SubmitEncryptedAssetAmount 1 0x1111111111111111111111111111111111111111 0xAA)
         sample_with_provider))))
     1 0x1111111111111111111111111111111111111111 = 0xAA \<and>
   lastSubmissionTime
     (snd (transact sample_platform (at bob 130)
       (SubmitEncryptedAssetAmount 1 0x1111111111111111111111111111111111111111 0xDD)
       (snd (transact sample_platform (at bob 100)
         (SubmitEncryptedAssetAmount 1 0x1111111111111111111111111111111111111111 0xAA)
         sample_with_provider))))
     bob = 100"
proof -
  let ?c1 = "SubmitEncryptedAssetAmount 1 0x1111111111111111111111111111111111111111 0xAA"
  let ?c2 = "SubmitEncryptedAssetAmount 1 0x1111111111111111111111111111111111111111 0xDD"
  let ?s1 = "snd (transact sample_platform (at bob 100) ?c1 sample_with_provider)"
  have ok: "fst (transact sample_platform (at bob 100) ?c1 sample_with_provider) = None"
    by (simp add: transact_def submitEncryptedAssetAmount_cases sample_with_provider_eq
        sample_deployed_eq checked_add_def at_def sample_platform_def)
  then have t1: "transact sample_platform (at bob 100) ?c1 sample_with_provider = (None, ?s1)"
    by (simp add: prod_eq_iff)
  have lim: "checked_add (block_timestamp (at bob 100)) (cooldownSeconds sample_with_provider) =
      Inr 160"
    by (simp add: checked_add_def at_def sample_with_provider_eq sample_deployed_eq)
  have lt: "block_timestamp (at bob 130) < 160" by (simp add: at_def)
  have same: "msg_sender (at bob 130) = msg_sender (at bob 100)" by (simp add: at_def)
  note inst = failed_submit_is_atomic
    [where ?c1.0 = ?c1 and ?c2.0 = ?c2 and x = sample_platform and ?e1.0 = "at bob 100"
       and ?e2.0 = "at bob 130" and s = sample_with_provider and ?s1.0 = ?s1 and limit = 160,
     THEN conjunct2, rule_format]
  have res: "transact sample_platform (at bob 130) ?c2 ?s1 = (Some CooldownActive, ?s1) \<and>
    stored ?s1 ?c1 = submitted_handle ?c1 \<and>
    lastSubmissionTime ?s1 (msg_sender (at bob 100)) = block_timestamp (at bob 100)"
    by (rule inst) (use t1 lim lt same in simp)
  then show ?thesis using ok lim lt by (simp add: at_def)
qed

subsection \<open>Ownership\<close>

lemma owner_only_NotOwner:
  "owner_only c \<Longrightarrow> msg_sender e \<noteq> owner s \<Longrightarrow> dispatch x e c s = Inl NotOwner"
  by (cases c) (simp_all add: op_defs)

lemma owner_unchanged:
  assumes "dispatch x e c s = Inr s'" and "msg_sender e \<noteq> owner s"
  shows "owner s' = owner s"
proof (cases "owner_only c")
  case True
  with assms show ?thesis by (simp add: owner_only_NotOwner)
next
  case False
  with assms(1) show ?thesis
    by (cases c)
       (auto simp: submitEncryptedAssetAmount_cases submitEncryptedHedgeAmount_cases
          myCallback_cases split: if_splits sum.splits)
qed

lemma owner_zero_run:
  "owner s = 0 \<Longrightarrow> list_all (\<lambda>(e, c). msg_sender e \<noteq> 0) tr \<Longrightarrow> owner (run x tr s) = 0"
proof (induction tr arbitrary: s)
  case Nil
  then show ?case by simp
next
  case (Cons ec tr)
  obtain e c where ec: "ec = (e, c)" by (cases ec)
  with Cons.prems have ne: "msg_sender e \<noteq> owner s"
    and rest: "list_all (\<lambda>(e, c). msg_sender e \<noteq> 0) tr" by simp_all
  have "owner (snd (transact x e c s)) = 0"
  proof (cases "dispatch x e c s")
    case (Inl err)
    with Cons.prems(1) show ?thesis by (simp add: transact_def)
  next
    case (Inr s')
    with ne have "owner s' = owner s" by (simp add: owner_unchanged)
    with Inr Cons.prems(1) show ?thesis by (simp add: transact_def)
  qed
  then have "owner (run x tr (snd (transact x e c s))) = 0" using rest by (rule Cons.IH)
  with ec show ?case by simp
qed

text \<open>
  Claim C10. Called by the owner, \<open>transferOwnership\<close> sets the owner to the address it
  is given, whatever that address is (the zero address and the current owner too),
  and emits the event; there is no other check. Once the owner is the zero address it
  stays so under every sequence of transactions, and every function with \<open>onlyOwner\<close>
  reverts with \<open>NotOwner\<close> for every caller. A caller is an account that sends a
  transaction: its address is not the zero address.
\<close>

theorem ownership_transfer_unvalidated:
  "(msg_sender e = owner s \<longrightarrow>
    transact x e (TransferOwnership newOwner) s =
      (None, s\<lparr>owner := newOwner,
                events := events s @ [OwnershipTransferred (owner s) newOwner]\<rparr>)) \<and>
   (owner s = 0 \<and> list_all (\<lambda>(e, c). msg_sender e \<noteq> 0) tr \<and> msg_sender e' \<noteq> 0 \<and>
    owner_only c \<longrightarrow>
    owner (run x tr s) = 0 \<and> transact x e' c (run x tr s) = (Some NotOwner, run x tr s))"
proof (intro conjI impI)
  assume "msg_sender e = owner s"
  then show "transact x e (TransferOwnership newOwner) s =
      (None, s\<lparr>owner := newOwner,
                events := events s @ [OwnershipTransferred (owner s) newOwner]\<rparr>)"
    by (simp add: transact_def transferOwnership_def onlyOwner_def emit_def)
next
  assume a: "owner s = 0 \<and> list_all (\<lambda>(e, c). msg_sender e \<noteq> 0) tr \<and> msg_sender e' \<noteq> 0 \<and>
    owner_only c"
  then show o: "owner (run x tr s) = 0" by (simp add: owner_zero_run)
  with a have "dispatch x e' c (run x tr s) = Inl NotOwner"
    by (simp add: owner_only_NotOwner)
  then show "transact x e' c (run x tr s) = (Some NotOwner, run x tr s)"
    by (simp add: transact_def)
qed

lemma sample_renounced_eq:
  "sample_renounced =
     sample_deployed\<lparr>owner := 0,
        events := [OwnershipTransferred 0 alice, BatchOpened 1, OwnershipTransferred alice 0]\<rparr>"
  by (simp add: sample_renounced_def sample_deployed_eq transact_def transferOwnership_def
      onlyOwner_def emit_def at_def)

text \<open>
  Witness for C10: \<open>alice\<close> hands the ownership to the zero address; afterwards her
  attempt to take it back, and an attempt of \<open>bob\<close>, change nothing, and \<open>setPaused\<close>
  reverts with \<open>NotOwner\<close>.
\<close>

theorem ownership_transfer_unvalidated_witness:
  "msg_sender (at alice 50) = owner sample_deployed \<and>
   transact sample_platform (at alice 50) (TransferOwnership 0) sample_deployed =
     (None, sample_renounced) \<and>
   owner sample_renounced = 0 \<and>
   list_all (\<lambda>(e, c). msg_sender e \<noteq> 0)
     [(at alice 100, TransferOwnership alice), (at bob 200, AddProvider bob)] \<and>
   msg_sender (at alice 300) \<noteq> 0 \<and> owner_only (SetPaused True) \<and>
   transact sample_platform (at alice 300) (SetPaused True)
     (run sample_platform
        [(at alice 100, TransferOwnership alice), (at bob 200, AddProvider bob)] sample_renounced) =
   (Some NotOwner,
    run sample_platform
        [(at alice 100, TransferOwnership alice), (at bob 200, AddProvider bob)] sample_renounced)"
proof -
  have a: "msg_sender (at alice 50) = owner sample_deployed"
    by (simp add: at_def sample_deployed_eq)
  have b: "owner sample_renounced = 0 \<and>
     list_all (\<lambda>(e, c). msg_sender e \<noteq> 0)
       [(at alice 100, TransferOwnership alice), (at bob 200, AddProvider bob)] \<and>
     msg_sender (at alice 300) \<noteq> 0 \<and> owner_only (SetPaused True)"
    by (simp add: sample_renounced_eq at_def alice_def bob_def)
  have c: "transact sample_platform (at alice 50) (TransferOwnership 0) sample_deployed =
     (None, sample_renounced)"
    using ownership_transfer_unvalidated
      [where e = "at alice 50" and s = sample_deployed and x = sample_platform and newOwner = 0,
       THEN conjunct1, rule_format, OF a]
    by (simp add: sample_renounced_eq sample_deployed_eq)
  from ownership_transfer_unvalidated
      [where s = sample_renounced and x = sample_platform and e' = "at alice 300"
         and c = "SetPaused True"
         and tr = "[(at alice 100, TransferOwnership alice), (at bob 200, AddProvider bob)]",
       THEN conjunct2, rule_format, OF b] a b c
  show ?thesis by blast
qed

subsection \<open>The pause flag\<close>

lemma sample_paused_eq:
  "sample_paused =
     sample_requested\<lparr>paused := True,
        events := [OwnershipTransferred 0 alice, BatchOpened 1, BatchClosedEvent 1,
                   DecryptionRequested 0 1 (hashCiphertexts sample_platform [0, 0, 0, 0]),
                   PauseToggled True]\<rparr>"
  by (simp add: sample_paused_def sample_requested_eq sample_closed_eq sample_deployed_eq
      transact_def setPaused_def onlyOwner_def emit_def at_def)

text \<open>
  Counterexample to C6 as stated. \<open>myCallback\<close> carries no modifier: in the sample run,
  paused after the decryption request, the callback of the oracle succeeds and
  finalizes request \<open>0\<close>.
\<close>

theorem paused_callback_counterexample:
  "paused sample_paused \<and>
   fst (transact sample_platform (at relayer 300) (MyCallback 0 sample_cleartexts [1])
          sample_paused) = None \<and>
   processed (decryptionContexts
     (snd (transact sample_platform (at relayer 300) (MyCallback 0 sample_cleartexts [1])
             sample_paused)) 0)"
  by (simp add: sample_paused_eq sample_requested_eq sample_closed_eq sample_deployed_eq
      transact_def myCallback_cases build_cts_eq sample_cleartexts_decode sample_check)

lemma pause_gated_dispatch:
  assumes "paused s" and "pause_gated c"
  shows "dispatch x e c s =
           Inl (if has_role s e c then Paused else if is_submit c then NotProvider else NotOwner)"
  using assms
  by (cases c)
     (auto simp: openNewBatch_def closeCurrentBatch_def onlyOwner_def whenNotPaused_def
        requestBatchDecryption_cases submitEncryptedAssetAmount_cases
        submitEncryptedHedgeAmount_cases)

lemma administrative_dispatch:
  assumes "administrative c" and "msg_sender e = owner s"
  shows "\<exists>s'. dispatch x e c s = Inr s'"
  using assms by (cases c) (simp_all add: op_defs Let_def)

lemma myCallback_ignores_paused:
  "myCallback x e r ct pf (s\<lparr>paused := p\<rparr>) =
     map_sum id (\<lambda>t. t\<lparr>paused := p\<rparr>) (myCallback x e r ct pf s)"
  by (simp add: myCallback_cases build_cts_eq)

text \<open>
  Claim C6, amended. While the contract is paused, the functions with \<open>whenNotPaused\<close>,
  which are \<open>openNewBatch\<close>, \<open>closeCurrentBatch\<close>, the two submissions and
  \<open>requestBatchDecryption\<close>, revert and change nothing: with \<open>Paused\<close> for a caller who
  holds the role the function asks for, and with \<open>NotOwner\<close> or \<open>NotProvider\<close> otherwise,
  since the check of the role comes first. The administrative functions succeed for
  the owner; \<open>addProvider\<close> adds the provider. The callback is not gated: it never
  reverts with \<open>Paused\<close>, and it succeeds or fails as it would without the flag.
\<close>

theorem paused_blocks_guarded_functions:
  assumes "paused s"
  shows "(pause_gated c \<longrightarrow>
            transact x e c s =
              (Some (if has_role s e c then Paused
                     else if is_submit c then NotProvider else NotOwner), s)) \<and>
         (administrative c \<and> msg_sender e = owner s \<longrightarrow> fst (transact x e c s) = None) \<and>
         (msg_sender e = owner s \<longrightarrow>
            transact x e (AddProvider provider) s =
              (None, s\<lparr>isProvider := (isProvider s)(provider := True),
                        events := events s @ [ProviderAdded provider]\<rparr>)) \<and>
         fst (transact x e (MyCallback r cleartexts pf) s) \<noteq> Some Paused \<and>
         fst (transact x e (MyCallback r cleartexts pf) s) =
           fst (transact x e (MyCallback r cleartexts pf) (s\<lparr>paused := False\<rparr>))"
proof (intro conjI impI)
  assume "pause_gated c"
  with assms show "transact x e c s =
      (Some (if has_role s e c then Paused else if is_submit c then NotProvider else NotOwner), s)"
    by (simp add: transact_def pause_gated_dispatch)
next
  assume "administrative c \<and> msg_sender e = owner s"
  then obtain s' where "dispatch x e c s = Inr s'" using administrative_dispatch by blast
  then show "fst (transact x e c s) = None" by (simp add: transact_def)
next
  assume "msg_sender e = owner s"
  then show "transact x e (AddProvider provider) s =
      (None, s\<lparr>isProvider := (isProvider s)(provider := True),
                events := events s @ [ProviderAdded provider]\<rparr>)"
    by (simp add: transact_def addProvider_def onlyOwner_def emit_def)
next
  show "fst (transact x e (MyCallback r cleartexts pf) s) \<noteq> Some Paused"
    by (simp add: transact_def myCallback_cases split: sum.splits)
next
  show "fst (transact x e (MyCallback r cleartexts pf) s) =
           fst (transact x e (MyCallback r cleartexts pf) (s\<lparr>paused := False\<rparr>))"
    by (simp add: transact_def myCallback_ignores_paused [of x e r cleartexts pf False s]
        map_sum_def split: sum.splits)
qed

text \<open>
  Witness for C6: in the paused sample, \<open>closeCurrentBatch\<close> reverts with \<open>Paused\<close> for the
  owner and with \<open>NotOwner\<close> for \<open>bob\<close>, and \<open>addProvider\<close> by the owner succeeds.
\<close>

theorem paused_blocks_guarded_functions_witness:
  "paused sample_paused \<and> pause_gated CloseCurrentBatch \<and>
   has_role sample_paused (at alice 300) CloseCurrentBatch \<and>
   transact sample_platform (at alice 300) CloseCurrentBatch sample_paused =
     (Some Paused, sample_paused) \<and>
   transact sample_platform (at bob 300) CloseCurrentBatch sample_paused =
     (Some NotOwner, sample_paused) \<and>
   administrative (AddProvider bob) \<and> msg_sender (at alice 300) = owner sample_paused \<and>
   fst (transact sample_platform (at alice 300) (AddProvider bob) sample_paused) = None"
proof -
  have p: "paused sample_paused" by (simp add: sample_paused_eq)
  have g: "pause_gated CloseCurrentBatch" by simp
  have r: "has_role sample_paused (at alice 300) CloseCurrentBatch"
    and r': "\<not> has_role sample_paused (at bob 300) CloseCurrentBatch"
    and a: "administrative (AddProvider bob) \<and> msg_sender (at alice 300) = owner sample_paused"
    by (simp_all add: sample_paused_eq sample_requested_eq sample_closed_eq sample_deployed_eq
        at_def alice_def bob_def)
  note inst = paused_blocks_guarded_functions [OF p, where x = sample_platform]
  from inst [where c = CloseCurrentBatch and e = "at alice 300", THEN conjunct1] g r
  have one: "transact sample_platform (at alice 300) CloseCurrentBatch sample_paused =
     (Some Paused, sample_paused)" by simp
  from inst [where c = CloseCurrentBatch and e = "at bob 300", THEN conjunct1] g r'
  have two: "transact sample_platform (at bob 300) CloseCurrentBatch sample_paused =
     (Some NotOwner, sample_paused)" by simp
  from inst [where c = "AddProvider bob" and e = "at alice 300", THEN conjunct2, THEN conjunct1] a
  have three: "fst (transact sample_platform (at alice 300) (AddProvider bob) sample_paused) = None"
    by blast
  from p g r one two a three show ?thesis by blast
qed

subsection \<open>Open batches\<close>

lemma sample_two_open_eq:
  "sample_two_open =
     sample_deployed\<lparr>currentBatchId := 2,
        events := [OwnershipTransferred 0 alice, BatchOpened 1, BatchOpened 2]\<rparr>"
  by (simp add: sample_two_open_def sample_deployed_eq transact_def openNewBatch_def
      onlyOwner_def whenNotPaused_def checked_add_def emit_def at_def Let_def)

text \<open>
  Counterexample to C4 as stated. \<open>openNewBatch\<close> increments \<open>currentBatchId\<close> and closes
  nothing: when the owner opens a batch on the new contract, the batches \<open>1\<close> and \<open>2\<close> are
  both issued and neither is closed, and batch \<open>1\<close> is open without being the highest.
\<close>

theorem two_open_batches_counterexample:
  "reachable sample_platform sample_two_open \<and>
   isOpen sample_two_open 1 \<and> isOpen sample_two_open 2 \<and>
   currentBatchId sample_two_open = 2 \<and> \<not> at_most_one_open sample_two_open"
proof -
  have o: "isOpen sample_two_open 1" "isOpen sample_two_open 2"
    "currentBatchId sample_two_open = 2"
    by (simp_all add: isOpen_def sample_two_open_eq sample_deployed_eq)
  have "\<not> at_most_one_open sample_two_open"
  proof
    assume "at_most_one_open sample_two_open"
    with o(1) have "(1 :: uint256) = currentBatchId sample_two_open"
      unfolding at_most_one_open_def by blast
    with o(3) show False by simp
  qed
  with o reachable_samples(5) show ?thesis by blast
qed

text \<open>What holds when the current batch is closed before the next is opened.\<close>

lemma at_most_one_open_constructor: "at_most_one_open (constructor e)"
  by (auto simp: at_most_one_open_def isOpen_def constructor_def zero_storage_def emit_def Let_def)

lemma isOpen_after_open:
  assumes n: "checked_add (currentBatchId s) 1 = Inr n"
    and closed: "isBatchClosed s (currentBatchId s)"
    and inv: "at_most_one_open s"
    and op: "isOpen (s\<lparr>currentBatchId := n, events := ev\<rparr>) b"
  shows "b = n"
proof (rule ccontr)
  assume "b \<noteq> n"
  from n have un: "unat n = unat (currentBatchId s) + 1" by (simp add: checked_add_Inr(2))
  from op have "1 \<le> b" and "b \<le> n" and nc: "\<not> isBatchClosed s b" by (simp_all add: isOpen_def)
  with \<open>b \<noteq> n\<close> have "unat b < unat n" by (auto simp: word_le_nat_alt word_unat_eq_iff)
  with un have "b \<le> currentBatchId s" by (simp add: word_le_nat_alt)
  with \<open>1 \<le> b\<close> nc have "isOpen s b" by (simp add: isOpen_def)
  with inv have "b = currentBatchId s" by (simp add: at_most_one_open_def)
  with closed nc show False by simp
qed

lemma at_most_one_open_dispatch:
  assumes inv: "at_most_one_open s" and step: "dispatch x e c s = Inr s'"
    and disc: "c = OpenNewBatch \<longrightarrow> isBatchClosed s (currentBatchId s)"
  shows "at_most_one_open s'"
proof (cases c)
  case OpenNewBatch
  with step obtain n where n: "checked_add (currentBatchId s) 1 = Inr n"
    and s': "s' = s\<lparr>currentBatchId := n, events := events s @ [BatchOpened n]\<rparr>"
    by (auto simp: openNewBatch_def onlyOwner_def whenNotPaused_def emit_def Let_def
        split: if_splits sum.splits)
  from disc OpenNewBatch have "isBatchClosed s (currentBatchId s)" by simp
  with n inv s' show ?thesis
    unfolding at_most_one_open_def [of s'] by (auto dest: isOpen_after_open)
next
  case CloseCurrentBatch
  with step inv show ?thesis
    by (auto simp: closeCurrentBatch_def onlyOwner_def whenNotPaused_def emit_def Let_def
        at_most_one_open_def isOpen_def split: if_splits)
next
  case (RequestBatchDecryption bid)
  with step inv show ?thesis
    by (auto simp: at_most_one_open_def isOpen_def dest!: requestBatchDecryption_Inr)
next
  case (MyCallback r ct pf)
  with step inv show ?thesis
    by (auto simp: at_most_one_open_def isOpen_def dest!: myCallback_Inr)
qed (use step inv in \<open>auto simp: op_defs Let_def at_most_one_open_def isOpen_def
       split: if_splits sum.splits\<close>)

lemma open_while_open:
  assumes o: "isOpen s (currentBatchId s)" and step: "dispatch x e OpenNewBatch s = Inr s'"
  shows "isOpen s' (currentBatchId s)" and "currentBatchId s' \<noteq> currentBatchId s"
    and "\<not> at_most_one_open s'"
proof -
  from step obtain n where n: "checked_add (currentBatchId s) 1 = Inr n"
    and s': "s' = s\<lparr>currentBatchId := n, events := events s @ [BatchOpened n]\<rparr>"
    by (auto simp: openNewBatch_def onlyOwner_def whenNotPaused_def emit_def Let_def
        split: if_splits sum.splits)
  from n have un: "unat n = unat (currentBatchId s) + 1" by (simp add: checked_add_Inr(2))
  then have le: "currentBatchId s \<le> n" and ne: "n \<noteq> currentBatchId s"
    by (auto simp: word_le_nat_alt)
  from o le s' show open': "isOpen s' (currentBatchId s)" by (simp add: isOpen_def)
  from ne s' show ne': "currentBatchId s' \<noteq> currentBatchId s" by simp
  show "\<not> at_most_one_open s'"
  proof
    assume "at_most_one_open s'"
    with open' have "currentBatchId s = currentBatchId s'"
      unfolding at_most_one_open_def by blast
    with ne' show False by simp
  qed
qed

lemma stale_open_dispatch:
  assumes o: "isOpen s b" and stale: "b \<noteq> currentBatchId s"
    and step: "dispatch x e c s = Inr s'"
  shows "isOpen s' b \<and> b \<noteq> currentBatchId s'"
proof (cases c)
  case OpenNewBatch
  with step obtain n where n: "checked_add (currentBatchId s) 1 = Inr n"
    and s': "s' = s\<lparr>currentBatchId := n, events := events s @ [BatchOpened n]\<rparr>"
    by (auto simp: openNewBatch_def onlyOwner_def whenNotPaused_def emit_def Let_def
        split: if_splits sum.splits)
  from n have un: "unat n = unat (currentBatchId s) + 1" by (simp add: checked_add_Inr(2))
  from o have "unat b \<le> unat (currentBatchId s)" by (simp add: isOpen_def word_le_nat_alt)
  with un have "b \<le> n" and "b \<noteq> n" by (auto simp: word_le_nat_alt)
  with o s' show ?thesis by (simp add: isOpen_def)
next
  case CloseCurrentBatch
  with step o stale show ?thesis
    by (auto simp: closeCurrentBatch_def onlyOwner_def whenNotPaused_def emit_def Let_def
        isOpen_def split: if_splits)
next
  case (RequestBatchDecryption bid)
  with step o stale show ?thesis
    by (auto simp: isOpen_def dest!: requestBatchDecryption_Inr)
next
  case (MyCallback r ct pf)
  with step o stale show ?thesis
    by (auto simp: isOpen_def dest!: myCallback_Inr)
qed (use step o stale in \<open>auto simp: op_defs Let_def isOpen_def split: if_splits sum.splits\<close>)

lemma stale_open_run:
  "isOpen s b \<Longrightarrow> b \<noteq> currentBatchId s \<Longrightarrow>
   isOpen (run x tr s) b \<and> b \<noteq> currentBatchId (run x tr s)"
proof (induction tr arbitrary: s)
  case Nil
  then show ?case by simp
next
  case (Cons ec tr)
  obtain e c where ec: "ec = (e, c)" by (cases ec)
  have "isOpen (snd (transact x e c s)) b \<and> b \<noteq> currentBatchId (snd (transact x e c s))"
  proof (cases "dispatch x e c s")
    case (Inl err)
    with Cons.prems show ?thesis by (simp add: transact_def)
  next
    case (Inr s')
    with Cons.prems have "isOpen s' b \<and> b \<noteq> currentBatchId s'"
      using stale_open_dispatch by blast
    with Inr show ?thesis by (simp add: transact_def)
  qed
  then have "isOpen (run x tr (snd (transact x e c s))) b \<and>
      b \<noteq> currentBatchId (run x tr (snd (transact x e c s)))"
    using Cons.IH by blast
  with ec show ?case by simp
qed

lemma closing_first_run:
  "at_most_one_open s \<Longrightarrow> closes_before_opening x tr s \<Longrightarrow> at_most_one_open (run x tr s)"
proof (induction tr arbitrary: s)
  case Nil
  then show ?case by simp
next
  case (Cons ec tr)
  obtain e c where ec: "ec = (e, c)" by (cases ec)
  from Cons.prems(2)
  have both: "(c = OpenNewBatch \<and> fst (transact x e c s) = None \<longrightarrow>
      isBatchClosed s (currentBatchId s)) \<and>
    closes_before_opening x tr (snd (transact x e c s))"
    unfolding ec closes_before_opening.simps by blast
  then have d: "c = OpenNewBatch \<and> fst (transact x e c s) = None \<longrightarrow>
      isBatchClosed s (currentBatchId s)"
    and rest: "closes_before_opening x tr (snd (transact x e c s))" by blast+
  have "at_most_one_open (snd (transact x e c s))"
  proof (cases "dispatch x e c s")
    case (Inl err)
    with Cons.prems(1) show ?thesis by (simp add: transact_def)
  next
    case (Inr s')
    with d have "c = OpenNewBatch \<longrightarrow> isBatchClosed s (currentBatchId s)"
      by (simp add: transact_def)
    with Cons.prems(1) Inr have "at_most_one_open s'" by (rule at_most_one_open_dispatch)
    with Inr show ?thesis by (simp add: transact_def)
  qed
  then have "at_most_one_open (run x tr (snd (transact x e c s)))" using rest by (rule Cons.IH)
  with ec show ?case by simp
qed

lemma transact_None: "transact x e c s = (None, s') \<Longrightarrow> dispatch x e c s = Inr s'"
  by (auto simp: transact_def split: sum.splits)

text \<open>
  Claim C4, amended. In every state reached from the deployment by a sequence of
  transactions in which \<open>openNewBatch\<close> succeeds only when the current batch is closed,
  at most one issued batch is open, and it is the current batch, whose id is the
  highest issued. A transaction keeps this when it is not \<open>openNewBatch\<close>
  (\<open>closeCurrentBatch\<close> too), or when the current batch is closed. When \<open>openNewBatch\<close>
  succeeds while the current batch is open, that batch stays open and is no longer the
  current one, so that it no longer holds. A batch that is open and not current stays
  so under every sequence of transactions: it cannot be closed any more.
\<close>

theorem one_open_when_closing_first:
  "(closes_before_opening x tr (constructor e) \<longrightarrow>
    at_most_one_open (run x tr (constructor e))) \<and>
   (at_most_one_open s \<and> transact x e c s = (None, s') \<and>
    (c = OpenNewBatch \<longrightarrow> isBatchClosed s (currentBatchId s)) \<longrightarrow> at_most_one_open s') \<and>
   (isOpen s (currentBatchId s) \<and> transact x e OpenNewBatch s = (None, s') \<longrightarrow>
    isOpen s' (currentBatchId s) \<and> currentBatchId s' \<noteq> currentBatchId s \<and>
    \<not> at_most_one_open s') \<and>
   (isOpen s b \<and> b \<noteq> currentBatchId s \<longrightarrow>
    isOpen (run x tr s) b \<and> b \<noteq> currentBatchId (run x tr s))"
proof (intro conjI impI)
  assume "closes_before_opening x tr (constructor e)"
  with at_most_one_open_constructor show "at_most_one_open (run x tr (constructor e))"
    by (rule closing_first_run)
next
  assume a: "at_most_one_open s \<and> transact x e c s = (None, s') \<and>
    (c = OpenNewBatch \<longrightarrow> isBatchClosed s (currentBatchId s))"
  then have "dispatch x e c s = Inr s'" using transact_None by blast
  with a show "at_most_one_open s'" using at_most_one_open_dispatch by blast
next
  assume a: "isOpen s (currentBatchId s) \<and> transact x e OpenNewBatch s = (None, s')"
  then have d: "dispatch x e OpenNewBatch s = Inr s'" using transact_None by blast
  from a d show "isOpen s' (currentBatchId s)" using open_while_open(1) by blast
  from a d show "currentBatchId s' \<noteq> currentBatchId s" using open_while_open(2) by blast
  from a d show "\<not> at_most_one_open s'" using open_while_open(3) by blast
next
  assume a: "isOpen s b \<and> b \<noteq> currentBatchId s"
  then have r: "isOpen (run x tr s) b \<and> b \<noteq> currentBatchId (run x tr s)"
    using stale_open_run by blast
  from r show "isOpen (run x tr s) b" by simp
  from r show "b \<noteq> currentBatchId (run x tr s)" by simp
qed

text \<open>
  Witness for C4: the owner closes batch \<open>1\<close> and opens batch \<open>2\<close>, and a further
  \<open>openNewBatch\<close> by \<open>bob\<close> reverts: one open batch. On the new contract, \<open>openNewBatch\<close>
  with batch \<open>1\<close> open leaves two open batches, and batch \<open>1\<close> is still open after the
  owner has closed batch \<open>2\<close> and opened batch \<open>3\<close>.
\<close>

theorem one_open_when_closing_first_witness:
  "closes_before_opening sample_platform sample_closing_trace (constructor (at alice 0)) \<and>
   at_most_one_open (run sample_platform sample_closing_trace (constructor (at alice 0))) \<and>
   isOpen sample_deployed (currentBatchId sample_deployed) \<and>
   transact sample_platform (at alice 100) OpenNewBatch sample_deployed =
     (None, sample_two_open) \<and>
   isOpen sample_two_open 1 \<and> currentBatchId sample_two_open \<noteq> 1 \<and>
   \<not> at_most_one_open sample_two_open \<and>
   isOpen (run sample_platform sample_later_trace sample_two_open) 1 \<and>
   currentBatchId (run sample_platform sample_later_trace sample_two_open) \<noteq> 1"
proof -
  have c: "constructor (at alice 0) = sample_deployed" by (simp add: sample_deployed_def)
  have cl: "closes_before_opening sample_platform sample_closing_trace (constructor (at alice 0))"
    unfolding c
    by (simp add: sample_closing_trace_def sample_deployed_eq transact_def closeCurrentBatch_def
        openNewBatch_def onlyOwner_def whenNotPaused_def checked_add_def emit_def at_def
        alice_def bob_def Let_def)
  from one_open_when_closing_first
    [where x = sample_platform and tr = sample_closing_trace and e = "at alice 0",
     THEN conjunct1] cl
  have one: "at_most_one_open (run sample_platform sample_closing_trace (constructor (at alice 0)))"
    by blast
  have o: "isOpen sample_deployed (currentBatchId sample_deployed)"
    by (simp add: isOpen_def sample_deployed_eq)
  have cur: "currentBatchId sample_deployed = 1" by (simp add: sample_deployed_eq)
  have t: "transact sample_platform (at alice 100) OpenNewBatch sample_deployed =
     (None, sample_two_open)"
    by (simp add: sample_two_open_eq sample_deployed_eq transact_def openNewBatch_def
        onlyOwner_def whenNotPaused_def checked_add_def emit_def at_def Let_def)
  from one_open_when_closing_first
    [where x = sample_platform and s = sample_deployed and e = "at alice 100"
       and s' = sample_two_open, THEN conjunct2, THEN conjunct2, THEN conjunct1] o t
  have two: "isOpen sample_two_open 1 \<and> currentBatchId sample_two_open \<noteq> 1 \<and>
      \<not> at_most_one_open sample_two_open"
    unfolding cur by blast
  then have st: "isOpen sample_two_open 1 \<and> 1 \<noteq> currentBatchId sample_two_open"
    by auto
  from one_open_when_closing_first
    [where x = sample_platform and s = sample_two_open and b = 1 and tr = sample_later_trace,
     THEN conjunct2, THEN conjunct2, THEN conjunct2] st
  have three: "isOpen (run sample_platform sample_later_trace sample_two_open) 1 \<and>
      1 \<noteq> currentBatchId (run sample_platform sample_later_trace sample_two_open)"
    by blast
  from three have four: "isOpen (run sample_platform sample_later_trace sample_two_open) 1 \<and>
      currentBatchId (run sample_platform sample_later_trace sample_two_open) \<noteq> 1"
    by auto
  from cl one o t two four show ?thesis by blast
qed

subsection \<open>Submissions for other assets\<close>

lemma build_cts_with_submissions:
  "agree_on_assets s am hm b \<Longrightarrow> build_cts (with_submissions s am hm) b = build_cts s b"
  by (simp add: agree_on_assets_def with_submissions_def build_cts_eq assets_def)

text \<open>
  Claim C9. Two storages that differ only in the two mappings of handles, and agree
  on the amount and hedge handles of the two listed asset addresses for the batch
  concerned, give the same snapshot, and the decryption request and the callback do
  the same on both: the same error, or the same new context, flag, timestamps and
  events, the mappings of handles being left as they were. A handle submitted for any
  other asset address has no effect on either function.
\<close>

theorem decryption_ignores_other_assets:
  "agree_on_assets s am hm b =
     (am b 0x1111111111111111111111111111111111111111 =
        encryptedAssetAmounts s b 0x1111111111111111111111111111111111111111 \<and>
      hm b 0x1111111111111111111111111111111111111111 =
        encryptedHedgeAmounts s b 0x1111111111111111111111111111111111111111 \<and>
      am b 0x2222222222222222222222222222222222222222 =
        encryptedAssetAmounts s b 0x2222222222222222222222222222222222222222 \<and>
      hm b 0x2222222222222222222222222222222222222222 =
        encryptedHedgeAmounts s b 0x2222222222222222222222222222222222222222) \<and>
   (agree_on_assets s am hm bid \<longrightarrow>
    build_cts (with_submissions s am hm) bid = build_cts s bid \<and>
    requestBatchDecryption x e bid (with_submissions s am hm) =
      map_sum id (\<lambda>t. with_submissions t am hm) (requestBatchDecryption x e bid s)) \<and>
   (agree_on_assets s am hm (batchId (decryptionContexts s r)) \<longrightarrow>
    myCallback x e r cleartexts pf (with_submissions s am hm) =
      map_sum id (\<lambda>t. with_submissions t am hm) (myCallback x e r cleartexts pf s))"
proof (intro conjI impI)
  show "agree_on_assets s am hm b =
     (am b 0x1111111111111111111111111111111111111111 =
        encryptedAssetAmounts s b 0x1111111111111111111111111111111111111111 \<and>
      hm b 0x1111111111111111111111111111111111111111 =
        encryptedHedgeAmounts s b 0x1111111111111111111111111111111111111111 \<and>
      am b 0x2222222222222222222222222222222222222222 =
        encryptedAssetAmounts s b 0x2222222222222222222222222222222222222222 \<and>
      hm b 0x2222222222222222222222222222222222222222 =
        encryptedHedgeAmounts s b 0x2222222222222222222222222222222222222222)"
    by (auto simp: agree_on_assets_def assets_def)
next
  assume "agree_on_assets s am hm bid"
  then show "build_cts (with_submissions s am hm) bid = build_cts s bid"
    by (rule build_cts_with_submissions)
next
  assume "agree_on_assets s am hm bid"
  then have "build_cts (with_submissions s am hm) bid = build_cts s bid"
    by (rule build_cts_with_submissions)
  then show "requestBatchDecryption x e bid (with_submissions s am hm) =
      map_sum id (\<lambda>t. with_submissions t am hm) (requestBatchDecryption x e bid s)"
    unfolding requestBatchDecryption_cases
    by (simp add: with_submissions_def split: sum.splits)
next
  assume "agree_on_assets s am hm (batchId (decryptionContexts s r))"
  then have "build_cts (with_submissions s am hm) (batchId (decryptionContexts s r)) =
      build_cts s (batchId (decryptionContexts s r))"
    by (rule build_cts_with_submissions)
  then show "myCallback x e r cleartexts pf (with_submissions s am hm) =
      map_sum id (\<lambda>t. with_submissions t am hm) (myCallback x e r cleartexts pf s)"
    unfolding myCallback_cases
    by (simp add: with_submissions_def)
qed


text \<open>
  Witness for C9: the closed batch of the second run, with and without a handle for
  the third asset.
\<close>

theorem decryption_ignores_other_assets_witness:
  "agree_on_assets sample_submitted sample_other_amounts (encryptedHedgeAmounts sample_submitted) 1 \<and>
   sample_other_amounts 1 0x3333333333333333333333333333333333333333 = 0x99 \<and>
   encryptedAssetAmounts sample_submitted 1 0x3333333333333333333333333333333333333333 = 0 \<and>
   requestBatchDecryption sample_platform (at alice 500) 1
     (with_submissions sample_submitted sample_other_amounts
        (encryptedHedgeAmounts sample_submitted)) =
     Inr (with_submissions sample_submitted_requested sample_other_amounts
            (encryptedHedgeAmounts sample_submitted))"
proof -
  have a: "agree_on_assets sample_submitted sample_other_amounts
             (encryptedHedgeAmounts sample_submitted) 1"
    by (simp add: agree_on_assets_def assets_def sample_other_amounts_def)
  have b: "sample_other_amounts 1 0x3333333333333333333333333333333333333333 = 0x99"
    "encryptedAssetAmounts sample_submitted 1 0x3333333333333333333333333333333333333333 = 0"
    by (simp_all add: sample_other_amounts_def sample_submitted_eq sample_deployed_eq)
  from decryption_ignores_other_assets
    [where s = sample_submitted and am = sample_other_amounts
       and hm = "encryptedHedgeAmounts sample_submitted" and bid = 1
       and x = sample_platform and e = "at alice 500",
     THEN conjunct2, THEN conjunct1, rule_format, OF a]
  have "requestBatchDecryption sample_platform (at alice 500) 1
     (with_submissions sample_submitted sample_other_amounts
        (encryptedHedgeAmounts sample_submitted)) =
     Inr (with_submissions sample_submitted_requested sample_other_amounts
            (encryptedHedgeAmounts sample_submitted))"
    by (simp add: sample_submitted_request)
  with a b show ?thesis by blast
qed

end
